theory Spec2Isabelle
  imports Main
begin

section \<open>Personnel records: the models of \<open>personaldetail/models.py\<close> and the admin actions\<close>

text \<open>
  The module is a Django application. Every model class becomes a record that extends
  the record of its abstract base \<open>AuditableModel\<close>; a database table is the list of
  its stored rows; a query set is a list of rows; an operation that writes takes the
  database and returns it, together with either the exception it raised or the instance
  it left behind. What the module imports from libraries (\<open>slugify\<close>, the time zone
  helpers, \<open>nepali_datetime\<close>, \<open>strftime\<close>) is taken as a parameter, so that every
  theorem holds for whatever those functions compute.
\<close>

subsection \<open>Values\<close>

type_synonym uuid = nat

text \<open>\<open>datetime.date\<close> and its subclass \<open>datetime.datetime\<close>; a naive datetime has no offset.\<close>

record date =
  year :: nat
  month :: nat
  day :: nat

record datetime = date +
  hour :: nat
  minute :: nat
  second :: nat
  utcoffset :: "int option"

text \<open>The exceptions the operations can raise.\<close>

datatype error = IntegrityError | DatabaseError | ValueError | DoesNotExist

text \<open>\<open>str(n)\<close> of a non-negative integer: its decimal digits.\<close>

definition digit_char :: "nat \<Rightarrow> char" where
  "digit_char d = ''0123456789'' ! d"

fun str_nat :: "nat \<Rightarrow> string" where
  "str_nat n = (if n < 10 then [digit_char n] else str_nat (n div 10) @ [digit_char (n mod 10)])"

declare str_nat.simps [simp del]

text \<open>The format specifications \<open>:04d\<close> and \<open>:02d\<close>: zero padding on the left up to a width.\<close>

definition zero_pad :: "nat \<Rightarrow> nat \<Rightarrow> string" where
  "zero_pad width n = replicate (width - length (str_nat n)) (CHR ''0'') @ str_nat n"

subsection \<open>\<open>django.utils.text.slugify\<close> on ASCII text\<close>

text \<open>
  \<open>slugify\<close> belongs to Django. The theorems below take it as the parameter \<open>slugify\<close>;
  \<open>slugify_ascii\<close> is what it computes on ASCII text (lower-case, drop every character
  that is not a word character, white space or a hyphen, replace each run of hyphens and
  white space by one hyphen, strip hyphens and underscores at both ends), and serves as
  the concrete function of the instances.
\<close>

definition lower_char :: "char \<Rightarrow> char" where
  "lower_char c =
     (let k = (of_char c :: nat) in if 65 \<le> k \<and> k \<le> 90 then char_of (k + 32) else c)"

definition is_word_char :: "char \<Rightarrow> bool" where
  "is_word_char c \<longleftrightarrow>
     (let k = (of_char c :: nat)
      in (97 \<le> k \<and> k \<le> 122) \<or> (65 \<le> k \<and> k \<le> 90) \<or> (48 \<le> k \<and> k \<le> 57) \<or> k = 95)"

definition is_space_char :: "char \<Rightarrow> bool" where
  "is_space_char c \<longleftrightarrow>
     (let k = (of_char c :: nat) in (9 \<le> k \<and> k \<le> 13) \<or> (28 \<le> k \<and> k \<le> 32))"

definition is_hyphen_or_space :: "char \<Rightarrow> bool" where
  "is_hyphen_or_space c \<longleftrightarrow> c = CHR ''-'' \<or> is_space_char c"

function collapse_runs :: "string \<Rightarrow> string" where
  "collapse_runs [] = []"
| "collapse_runs (c # cs) =
     (if is_hyphen_or_space c then CHR ''-'' # collapse_runs (dropWhile is_hyphen_or_space cs)
      else c # collapse_runs cs)"
  by pat_completeness auto
termination
  by (relation "measure length") (auto simp: le_imp_less_Suc length_dropWhile_le)

definition strip_chars :: "string \<Rightarrow> string \<Rightarrow> string" where
  "strip_chars chars s =
     rev (dropWhile (\<lambda>c. c \<in> set chars) (rev (dropWhile (\<lambda>c. c \<in> set chars) s)))"

definition slugify_ascii :: "string \<Rightarrow> string" where
  "slugify_ascii v =
     strip_chars ''-_''
       (collapse_runs
          (filter (\<lambda>c. is_word_char c \<or> is_space_char c \<or> c = CHR ''-'') (map lower_char v)))"

subsection \<open>The abstract base model and a database row\<close>

text \<open>
  \<open>pk\<close> is the primary key \<open>id\<close>, \<open>None\<close> for an instance whose key was cleared. A foreign
  key field holds the key of the row it refers to, under Django's attribute name
  (\<open>province_id\<close> for the field \<open>province\<close>).
\<close>

record AuditableModel =
  pk :: "uuid option"
  created_at :: "datetime option"
  updated_at :: "datetime option"
  created_at_nepali :: string
  updated_at_nepali :: string
  created_by_id :: "uuid option"

subsection \<open>\<open>unique_slugify\<close>\<close>

text \<open>
  The loop of \<open>unique_slugify\<close>: \<open>while queryset.filter(slug=slug).exists()\<close> replaces
  \<open>slug\<close> by the original slug, the separator and the counter, and increments the counter.
  The field named \<open>slug_field_name\<close> is given by its selector \<open>slug_field\<close> and its update
  \<open>set_slug\<close>.
\<close>

function slug_loop ::
  "('r \<Rightarrow> string) \<Rightarrow> 'r list \<Rightarrow> string \<Rightarrow> string \<Rightarrow> string \<Rightarrow> nat \<Rightarrow> string" where
  "slug_loop slug_field queryset original_slug separator slug nxt =
     (if \<exists>r \<in> set queryset. slug_field r = slug
      then slug_loop slug_field queryset original_slug separator
             (original_slug @ separator @ str_nat nxt) (nxt + 1)
      else slug)"
  by pat_completeness auto

text \<open>The counters from \<open>nxt\<close> on whose candidate slug some row of the query set holds:
  finitely many, because the decimal representation is injective. This is the measure
  that proves the loop terminates.\<close>

definition taken_from ::
  "('r \<Rightarrow> string) \<Rightarrow> 'r list \<Rightarrow> string \<Rightarrow> string \<Rightarrow> nat \<Rightarrow> nat set" where
  "taken_from slug_field queryset original_slug separator nxt =
     {k. nxt \<le> k \<and> original_slug @ separator @ str_nat k \<in> slug_field ` set queryset}"

lemma digit_char_inj: "a < 10 \<Longrightarrow> b < 10 \<Longrightarrow> digit_char a = digit_char b \<Longrightarrow> a = b"
proof -
  assume a: "a < 10" and b: "b < 10" and e: "digit_char a = digit_char b"
  have d: "distinct ''0123456789''" by simp
  have l: "length ''0123456789'' = 10" by simp
  from e have "''0123456789'' ! a = ''0123456789'' ! b" by (simp only: digit_char_def)
  with d a b l show "a = b" by (simp only: nth_eq_iff_index_eq)
qed

lemma str_nat_nonempty: "str_nat n \<noteq> []"
  by (subst str_nat.simps) simp

lemma str_nat_inj: "str_nat m = str_nat n \<Longrightarrow> m = n"
proof (induction m arbitrary: n rule: str_nat.induct)
  case (1 m)
  show ?case
  proof (cases "m < 10")
    case True
    note m = this
    show ?thesis
    proof (cases "n < 10")
      case True
      with m "1.prems" show ?thesis
        by (simp add: str_nat.simps[of m] str_nat.simps[of n] digit_char_inj)
    next
      case False
      with m "1.prems" str_nat_nonempty[of "n div 10"] show ?thesis
        by (simp add: str_nat.simps[of m] str_nat.simps[of n])
    qed
  next
    case False
    note m = this
    show ?thesis
    proof (cases "n < 10")
      case True
      with m "1.prems" str_nat_nonempty[of "m div 10"] show ?thesis
        by (simp add: str_nat.simps[of m] str_nat.simps[of n])
    next
      case False
      with m "1.prems" have e: "str_nat (m div 10) = str_nat (n div 10)"
        and d: "digit_char (m mod 10) = digit_char (n mod 10)"
        by (simp_all add: str_nat.simps[of m] str_nat.simps[of n])
      from "1.IH"[OF m e] have q: "m div 10 = n div 10" .
      from d have r: "m mod 10 = n mod 10" by (auto intro: digit_char_inj)
      from q r show ?thesis by (metis div_mult_mod_eq)
    qed
  qed
qed

lemma finite_taken_from: "finite (taken_from f qs a b n)"
proof -
  have i: "inj (\<lambda>k. a @ b @ str_nat k)"
    by (rule injI) (simp add: str_nat_inj)
  have "finite ((\<lambda>k. a @ b @ str_nat k) -` (f ` set qs))"
    by (rule finite_vimageI[OF _ i]) simp
  moreover have "taken_from f qs a b n \<subseteq> (\<lambda>k. a @ b @ str_nat k) -` (f ` set qs)"
    by (auto simp: taken_from_def)
  ultimately show ?thesis by (rule rev_finite_subset)
qed

lemma taken_from_step:
  "taken_from f qs a b n =
     (if a @ b @ str_nat n \<in> f ` set qs then insert n (taken_from f qs a b (Suc n))
      else taken_from f qs a b (Suc n))"
  by (auto simp: taken_from_def Suc_le_eq le_less)

lemma card_taken_from:
  "card (taken_from f qs a b n) =
     card (taken_from f qs a b (Suc n)) + (if a @ b @ str_nat n \<in> f ` set qs then 1 else 0)"
proof -
  have "n \<notin> taken_from f qs a b (Suc n)" by (simp add: taken_from_def)
  then show ?thesis
    by (subst taken_from_step) (simp add: finite_taken_from)
qed

termination slug_loop
proof (relation "measure (\<lambda>(f, qs, a, b, s, n).
          card (taken_from f qs a b n) + (if s \<in> f ` set qs then 1 else 0))")
  show "wf (measure (\<lambda>(f, qs, a, b, s, n).
          card (taken_from f qs a b n) + (if s \<in> f ` set qs then 1 else 0)))"
    by simp
next
  fix slug_field :: "'r \<Rightarrow> string" and queryset original_slug separator slug nxt
  assume "\<exists>r\<in>set queryset. slug_field r = slug"
  then have s: "slug \<in> slug_field ` set queryset" by auto
  from s card_taken_from[of slug_field queryset original_slug separator nxt]
  show "((slug_field, queryset, original_slug, separator,
           original_slug @ separator @ str_nat nxt, nxt + 1),
          slug_field, queryset, original_slug, separator, slug, nxt)
         \<in> measure (\<lambda>(f, qs, a, b, s, n).
          card (taken_from f qs a b n) + (if s \<in> f ` set qs then 1 else 0))"
    by simp
qed

declare slug_loop.simps [simp del]

text \<open>
  \<open>unique_slugify(instance, value, slug_field_name, queryset, separator)\<close>. \<open>objects\<close> is
  \<open>Model._default_manager.all()\<close>, the table of the instance's model, used when no
  query set is passed. The instance's own row is excluded when the instance has a key.
\<close>

definition unique_slugify ::
  "(string \<Rightarrow> string) \<Rightarrow> 'a AuditableModel_scheme list
     \<Rightarrow> ('a AuditableModel_scheme \<Rightarrow> string)
     \<Rightarrow> (string \<Rightarrow> 'a AuditableModel_scheme \<Rightarrow> 'a AuditableModel_scheme)
     \<Rightarrow> 'a AuditableModel_scheme \<Rightarrow> string \<Rightarrow> 'a AuditableModel_scheme list option \<Rightarrow> string
     \<Rightarrow> 'a AuditableModel_scheme" where
  "unique_slugify slugify objects slug_field set_slug instance val queryset separator =
     (let slug = take 180 (slugify val);
          queryset1 = (case queryset of None \<Rightarrow> objects | Some qs \<Rightarrow> qs);
          original_slug = slug;
          queryset2 = (case pk instance of
                         None \<Rightarrow> queryset1
                       | Some k \<Rightarrow> filter (\<lambda>r. pk r \<noteq> Some k) queryset1)
      in set_slug (slug_loop slug_field queryset2 original_slug separator slug 1) instance)"

subsection \<open>\<open>gregorian_to_nepali_string\<close>\<close>

text \<open>
  The functions of \<open>django.utils.timezone\<close>, of \<open>nepali_datetime\<close> and of the platform
  that the module calls. \<open>NEPALI_AVAILABLE\<close> is the flag the import at the top of the
  module sets; \<open>from_datetime_date\<close> returns \<open>None\<close> where the library raises;
  \<open>make_aware\<close> attaches the current time zone; a BS date has the three attributes of
  a date.
\<close>

record libraries =
  NEPALI_AVAILABLE :: bool
  from_datetime_date :: "date \<Rightarrow> date option"
  make_aware :: "datetime \<Rightarrow> datetime"
  localtime :: "datetime \<Rightarrow> datetime"
  strftime :: "datetime \<Rightarrow> string \<Rightarrow> string"

definition is_naive :: "datetime \<Rightarrow> bool" where
  "is_naive dt \<longleftrightarrow> utcoffset dt = None"

definition date_of :: "datetime \<Rightarrow> date" where
  "date_of dt = \<lparr>year = year dt, month = month dt, day = day dt\<rparr>"

definition gregorian_to_nepali_string :: "libraries \<Rightarrow> datetime option \<Rightarrow> string" where
  "gregorian_to_nepali_string L dt0 =
     (case dt0 of
        None \<Rightarrow> ''''
      | Some dt \<Rightarrow>
          (let dt1 = (if is_naive dt then make_aware L dt else dt);
               local_dt = localtime L dt1
           in if NEPALI_AVAILABLE L
              then (case from_datetime_date L (date_of local_dt) of
                      Some nd \<Rightarrow>
                        zero_pad 4 (year nd) @ ''-'' @ zero_pad 2 (month nd) @ ''-''
                          @ zero_pad 2 (day nd) @ '' '' @ strftime L local_dt ''%H:%M:%S''
                    | None \<Rightarrow> strftime L local_dt ''%Y-%m-%d %H:%M:%S'')
              else strftime L local_dt ''%Y-%m-%d %H:%M:%S''))"

subsection \<open>Saving a row: \<open>Model.save\<close> and \<open>AuditableModel.save\<close>\<close>

text \<open>
  \<open>Model.save\<close> is Django's. A table is the list of its rows. \<open>conflict\<close> is the
  uniqueness the model declares (\<open>unique=True\<close>, \<open>unique_together\<close>,
  \<open>UniqueConstraint\<close>): the database refuses, with \<open>IntegrityError\<close>, a row that
  conflicts with a row of another key. \<open>now\<close> is what \<open>timezone.now()\<close> returns and
  \<open>uuid4\<close> what \<open>uuid.uuid4()\<close> returns. \<open>update_fields\<close>, when given, is the function
  that copies the named fields from the instance into the stored row; such a save
  raises \<open>ValueError\<close> without a key and \<open>DatabaseError\<close> when no row has the key.
  Without \<open>update_fields\<close> the row with the instance's key is replaced, or the instance
  is inserted when no row has it; \<open>updated_at\<close> (\<open>auto_now\<close>) is set on every such save
  and \<open>created_at\<close> (\<open>auto_now_add\<close>) on insertion. Foreign keys and field lengths are
  not checked.
\<close>

definition violates ::
  "('a AuditableModel_scheme \<Rightarrow> 'a AuditableModel_scheme \<Rightarrow> bool)
     \<Rightarrow> 'a AuditableModel_scheme list \<Rightarrow> 'a AuditableModel_scheme \<Rightarrow> bool" where
  "violates conflict tbl row \<longleftrightarrow> (\<exists>r \<in> set tbl. pk r \<noteq> pk row \<and> conflict row r)"

definition Model_save ::
  "('a AuditableModel_scheme \<Rightarrow> 'a AuditableModel_scheme \<Rightarrow> bool) \<Rightarrow> datetime \<Rightarrow> uuid
     \<Rightarrow> ('a AuditableModel_scheme \<Rightarrow> 'a AuditableModel_scheme \<Rightarrow> 'a AuditableModel_scheme) option
     \<Rightarrow> 'a AuditableModel_scheme list \<Rightarrow> 'a AuditableModel_scheme
     \<Rightarrow> (error + 'a AuditableModel_scheme) \<times> 'a AuditableModel_scheme list" where
  "Model_save conflict now uuid4 update_fields tbl self =
     (case update_fields of
        Some copy_fields \<Rightarrow>
          (case pk self of
             None \<Rightarrow> (Inl ValueError, tbl)
           | Some k \<Rightarrow>
               if \<not> (\<exists>r \<in> set tbl. pk r = Some k) then (Inl DatabaseError, tbl)
               else if \<exists>r \<in> set tbl. pk r = Some k \<and> violates conflict tbl (copy_fields self r)
               then (Inl IntegrityError, tbl)
               else (Inr self, map (\<lambda>r. if pk r = Some k then copy_fields self r else r) tbl))
      | None \<Rightarrow>
          (case pk self of
             None \<Rightarrow>
               (let self1 = self\<lparr>pk := Some uuid4, created_at := Some now, updated_at := Some now\<rparr>
                in if (\<exists>r \<in> set tbl. pk r = Some uuid4) \<or> violates conflict tbl self1
                   then (Inl IntegrityError, tbl)
                   else (Inr self1, tbl @ [self1]))
           | Some k \<Rightarrow>
               if \<exists>r \<in> set tbl. pk r = Some k
               then (let self1 = self\<lparr>updated_at := Some now\<rparr>
                     in if violates conflict tbl self1 then (Inl IntegrityError, tbl)
                        else (Inr self1, map (\<lambda>r. if pk r = Some k then self1 else r) tbl))
               else (let self1 = self\<lparr>created_at := Some now, updated_at := Some now\<rparr>
                     in if violates conflict tbl self1 then (Inl IntegrityError, tbl)
                        else (Inr self1, tbl @ [self1]))))"

text \<open>The two \<open>update_fields\<close> lists of \<open>AuditableModel.save\<close>.\<close>

definition created_at_nepali_updated_at_nepali ::
  "'a AuditableModel_scheme \<Rightarrow> 'a AuditableModel_scheme \<Rightarrow> 'a AuditableModel_scheme" where
  "created_at_nepali_updated_at_nepali self r =
     r\<lparr>created_at_nepali := created_at_nepali self, updated_at_nepali := updated_at_nepali self\<rparr>"

definition only_updated_at_nepali ::
  "'a AuditableModel_scheme \<Rightarrow> 'a AuditableModel_scheme \<Rightarrow> 'a AuditableModel_scheme" where
  "only_updated_at_nepali self r = r\<lparr>updated_at_nepali := updated_at_nepali self\<rparr>"

definition AuditableModel_save ::
  "libraries \<Rightarrow> ('a AuditableModel_scheme \<Rightarrow> 'a AuditableModel_scheme \<Rightarrow> bool) \<Rightarrow> datetime \<Rightarrow> uuid
     \<Rightarrow> ('a AuditableModel_scheme \<Rightarrow> 'a AuditableModel_scheme \<Rightarrow> 'a AuditableModel_scheme) option
     \<Rightarrow> 'a AuditableModel_scheme list \<Rightarrow> 'a AuditableModel_scheme
     \<Rightarrow> (error + 'a AuditableModel_scheme) \<times> 'a AuditableModel_scheme list" where
  "AuditableModel_save L conflict now uuid4 update_fields tbl self =
     (let is_new = (pk self = None)
      in if is_new
         then (case Model_save conflict now uuid4 update_fields tbl self of
                 (Inl e, tbl1) \<Rightarrow> (Inl e, tbl1)
               | (Inr self1, tbl1) \<Rightarrow>
                   (let self2 = self1\<lparr>created_at_nepali :=
                                        gregorian_to_nepali_string L (created_at self1),
                                      updated_at_nepali :=
                                        gregorian_to_nepali_string L (updated_at self1)\<rparr>
                    in Model_save conflict now uuid4 (Some created_at_nepali_updated_at_nepali)
                         tbl1 self2))
         else (case Model_save conflict now uuid4 update_fields tbl self of
                 (Inl e, tbl1) \<Rightarrow> (Inl e, tbl1)
               | (Inr self1, tbl1) \<Rightarrow>
                   (let self2 = self1\<lparr>updated_at_nepali :=
                                        gregorian_to_nepali_string L (updated_at self1)\<rparr>
                    in Model_save conflict now uuid4 (Some only_updated_at_nepali) tbl1 self2)))"

text \<open>\<open>QuerySet.update\<close>: one UPDATE statement over the selected rows, no \<open>save\<close> call.\<close>

definition queryset_update :: "('r \<Rightarrow> bool) \<Rightarrow> ('r \<Rightarrow> 'r) \<Rightarrow> 'r list \<Rightarrow> 'r list" where
  "queryset_update selected assign tbl = map (\<lambda>r. if selected r then assign r else r) tbl"

subsection \<open>The models\<close>

text \<open>
  One record per model class, with the uniqueness it declares. An image field holds the
  name of its file; the many-to-many field \<open>specific_works\<close> of a person is a table of
  its own and has no column here.
\<close>

record Province = AuditableModel +
  name :: string
  slug :: string

definition Province_conflict :: "Province \<Rightarrow> Province \<Rightarrow> bool" where
  "Province_conflict a b \<longleftrightarrow> Province.name a = Province.name b \<or> Province.slug a = Province.slug b"

record District = AuditableModel +
  province_id :: uuid
  name :: string
  slug :: string

definition District_conflict :: "District \<Rightarrow> District \<Rightarrow> bool" where
  "District_conflict a b \<longleftrightarrow>
     (District.province_id a = District.province_id b \<and> District.name a = District.name b)
     \<or> (District.province_id a = District.province_id b \<and> District.slug a = District.slug b)"

record Municipality = AuditableModel +
  district_id :: uuid
  name :: string
  slug :: string

definition Municipality_conflict :: "Municipality \<Rightarrow> Municipality \<Rightarrow> bool" where
  "Municipality_conflict a b \<longleftrightarrow>
     (Municipality.district_id a = Municipality.district_id b
        \<and> Municipality.name a = Municipality.name b)
     \<or> (Municipality.district_id a = Municipality.district_id b
        \<and> Municipality.slug a = Municipality.slug b)"

record Ward = AuditableModel +
  municipality_id :: uuid
  ward_no :: nat
  slug :: string

definition Ward_conflict :: "Ward \<Rightarrow> Ward \<Rightarrow> bool" where
  "Ward_conflict a b \<longleftrightarrow>
     (Ward.municipality_id a = Ward.municipality_id b \<and> Ward.ward_no a = Ward.ward_no b)
     \<or> (Ward.municipality_id a = Ward.municipality_id b \<and> Ward.slug a = Ward.slug b)"

record Post = AuditableModel +
  name :: string
  symbol_image :: "string option"
  slug :: string

definition Post_conflict :: "Post \<Rightarrow> Post \<Rightarrow> bool" where
  "Post_conflict a b \<longleftrightarrow> Post.name a = Post.name b \<or> Post.slug a = Post.slug b"

record Bank = AuditableModel +
  name :: string
  logo :: "string option"
  code :: "string option"
  slug :: string

definition Bank_conflict :: "Bank \<Rightarrow> Bank \<Rightarrow> bool" where
  "Bank_conflict a b \<longleftrightarrow> Bank.name a = Bank.name b \<or> Bank.slug a = Bank.slug b"

record BankBranch = AuditableModel +
  bank_id :: uuid
  name :: string
  ward_id :: uuid
  address_line :: string
  slug :: string

definition BankBranch_conflict :: "BankBranch \<Rightarrow> BankBranch \<Rightarrow> bool" where
  "BankBranch_conflict a b \<longleftrightarrow>
     (BankBranch.bank_id a = BankBranch.bank_id b \<and> BankBranch.name a = BankBranch.name b
        \<and> BankBranch.ward_id a = BankBranch.ward_id b)
     \<or> (BankBranch.bank_id a = BankBranch.bank_id b \<and> BankBranch.slug a = BankBranch.slug b)"

record BankAccount = AuditableModel +
  person_id :: uuid
  bank_id :: uuid
  branch_id :: "uuid option"
  account_number :: string
  is_primary :: bool

definition BankAccount_conflict :: "BankAccount \<Rightarrow> BankAccount \<Rightarrow> bool" where
  "BankAccount_conflict a b \<longleftrightarrow>
     BankAccount.bank_id a = BankAccount.bank_id b
     \<and> BankAccount.account_number a = BankAccount.account_number b"

record SpecificWork = AuditableModel +
  code :: string
  description :: string
  slug :: string

definition SpecificWork_conflict :: "SpecificWork \<Rightarrow> SpecificWork \<Rightarrow> bool" where
  "SpecificWork_conflict a b \<longleftrightarrow>
     SpecificWork.code a = SpecificWork.code b \<or> SpecificWork.slug a = SpecificWork.slug b"

record Person = AuditableModel +
  post_id :: uuid
  name :: string
  photo :: "string option"
  computer_code :: string
  identity_no :: string
  slug :: string
  is_working :: bool
  branch_address_id :: "uuid option"
  is_active :: bool
  deleted_at :: "datetime option"

definition Person_conflict :: "Person \<Rightarrow> Person \<Rightarrow> bool" where
  "Person_conflict a b \<longleftrightarrow>
     Person.identity_no a = Person.identity_no b \<or> Person.slug a = Person.slug b
     \<or> Person.computer_code a = Person.computer_code b"

record PhoneNumber = AuditableModel +
  person_id :: uuid
  number :: string
  is_primary :: bool

definition PhoneNumber_conflict :: "PhoneNumber \<Rightarrow> PhoneNumber \<Rightarrow> bool" where
  "PhoneNumber_conflict a b \<longleftrightarrow>
     PhoneNumber.person_id a = PhoneNumber.person_id b \<and> PhoneNumber.number a = PhoneNumber.number b"

record EmailAddress = AuditableModel +
  person_id :: uuid
  email :: string
  is_primary :: bool

definition EmailAddress_conflict :: "EmailAddress \<Rightarrow> EmailAddress \<Rightarrow> bool" where
  "EmailAddress_conflict a b \<longleftrightarrow>
     EmailAddress.person_id a = EmailAddress.person_id b
     \<and> EmailAddress.email a = EmailAddress.email b"

text \<open>The database: one table per model.\<close>

record db =
  provinces :: "Province list"
  districts :: "District list"
  municipalities :: "Municipality list"
  wards :: "Ward list"
  posts :: "Post list"
  banks :: "Bank list"
  bank_branches :: "BankBranch list"
  bank_accounts :: "BankAccount list"
  specific_works :: "SpecificWork list"
  persons :: "Person list"
  phone_numbers :: "PhoneNumber list"
  emails :: "EmailAddress list"

definition empty_db :: db where
  "empty_db = \<lparr>provinces = [], districts = [], municipalities = [], wards = [], posts = [],
     banks = [], bank_branches = [], bank_accounts = [], specific_works = [], persons = [],
     phone_numbers = [], emails = []\<rparr>"

text \<open>Following a foreign key: the row of the table with that key, \<open>DoesNotExist\<close>
  when there is none.\<close>

definition get_by_pk :: "'a AuditableModel_scheme list \<Rightarrow> uuid \<Rightarrow> error + 'a AuditableModel_scheme" where
  "get_by_pk tbl k = (case find (\<lambda>r. pk r = Some k) tbl of None \<Rightarrow> Inl DoesNotExist | Some r \<Rightarrow> Inr r)"

subsection \<open>The \<open>save\<close> methods\<close>

text \<open>
  Each \<open>save\<close> is the method of the class, called without arguments (as the admin
  forms call it); \<open>Person.save\<close> also takes the \<open>update_fields\<close> that \<open>soft_delete\<close> and
  \<open>restore\<close> pass. No method opens a transaction, so what was written before an
  exception stays written: the database is returned in either case.
\<close>

definition Province_save ::
  "(string \<Rightarrow> string) \<Rightarrow> libraries \<Rightarrow> datetime \<Rightarrow> uuid \<Rightarrow> db \<Rightarrow> Province \<Rightarrow> (error + Province) \<times> db" where
  "Province_save slugify L now uuid4 d self =
     (let self1 = (if Province.slug self = ''''
                   then unique_slugify slugify (provinces d) Province.slug
                          (\<lambda>s r. r\<lparr>Province.slug := s\<rparr>) self (Province.name self) None ''-''
                   else self)
      in case AuditableModel_save L Province_conflict now uuid4 None (provinces d) self1 of
           (res, tbl) \<Rightarrow> (res, d\<lparr>provinces := tbl\<rparr>))"

definition District_save ::
  "(string \<Rightarrow> string) \<Rightarrow> libraries \<Rightarrow> datetime \<Rightarrow> uuid \<Rightarrow> db \<Rightarrow> District \<Rightarrow> (error + District) \<times> db" where
  "District_save slugify L now uuid4 d self =
     (let self1 = (if District.slug self = ''''
                   then unique_slugify slugify (districts d) District.slug
                          (\<lambda>s r. r\<lparr>District.slug := s\<rparr>) self (District.name self)
                          (Some (filter (\<lambda>r. District.province_id r = District.province_id self)
                                   (districts d)))
                          ''-''
                   else self)
      in case AuditableModel_save L District_conflict now uuid4 None (districts d) self1 of
           (res, tbl) \<Rightarrow> (res, d\<lparr>districts := tbl\<rparr>))"

definition Municipality_save ::
  "(string \<Rightarrow> string) \<Rightarrow> libraries \<Rightarrow> datetime \<Rightarrow> uuid \<Rightarrow> db \<Rightarrow> Municipality
     \<Rightarrow> (error + Municipality) \<times> db" where
  "Municipality_save slugify L now uuid4 d self =
     (let self1 = (if Municipality.slug self = ''''
                   then unique_slugify slugify (municipalities d) Municipality.slug
                          (\<lambda>s r. r\<lparr>Municipality.slug := s\<rparr>) self (Municipality.name self)
                          (Some (filter (\<lambda>r. Municipality.district_id r = Municipality.district_id self)
                                   (municipalities d)))
                          ''-''
                   else self)
      in case AuditableModel_save L Municipality_conflict now uuid4 None (municipalities d) self1 of
           (res, tbl) \<Rightarrow> (res, d\<lparr>municipalities := tbl\<rparr>))"

definition Ward_save ::
  "(string \<Rightarrow> string) \<Rightarrow> libraries \<Rightarrow> datetime \<Rightarrow> uuid \<Rightarrow> db \<Rightarrow> Ward \<Rightarrow> (error + Ward) \<times> db" where
  "Ward_save slugify L now uuid4 d self =
     (let self1 = (if Ward.slug self = ''''
                   then unique_slugify slugify (wards d) Ward.slug
                          (\<lambda>s r. r\<lparr>Ward.slug := s\<rparr>) self (''ward-'' @ str_nat (Ward.ward_no self))
                          (Some (filter (\<lambda>r. Ward.municipality_id r = Ward.municipality_id self)
                                   (wards d)))
                          ''-''
                   else self)
      in case AuditableModel_save L Ward_conflict now uuid4 None (wards d) self1 of
           (res, tbl) \<Rightarrow> (res, d\<lparr>wards := tbl\<rparr>))"

definition Post_save ::
  "(string \<Rightarrow> string) \<Rightarrow> libraries \<Rightarrow> datetime \<Rightarrow> uuid \<Rightarrow> db \<Rightarrow> Post \<Rightarrow> (error + Post) \<times> db" where
  "Post_save slugify L now uuid4 d self =
     (let self1 = (if Post.slug self = ''''
                   then unique_slugify slugify (posts d) Post.slug
                          (\<lambda>s r. r\<lparr>Post.slug := s\<rparr>) self (Post.name self) None ''-''
                   else self)
      in case AuditableModel_save L Post_conflict now uuid4 None (posts d) self1 of
           (res, tbl) \<Rightarrow> (res, d\<lparr>posts := tbl\<rparr>))"

definition Bank_save ::
  "(string \<Rightarrow> string) \<Rightarrow> libraries \<Rightarrow> datetime \<Rightarrow> uuid \<Rightarrow> db \<Rightarrow> Bank \<Rightarrow> (error + Bank) \<times> db" where
  "Bank_save slugify L now uuid4 d self =
     (let self1 = (if Bank.slug self = ''''
                   then unique_slugify slugify (banks d) Bank.slug
                          (\<lambda>s r. r\<lparr>Bank.slug := s\<rparr>) self (Bank.name self) None ''-''
                   else self)
      in case AuditableModel_save L Bank_conflict now uuid4 None (banks d) self1 of
           (res, tbl) \<Rightarrow> (res, d\<lparr>banks := tbl\<rparr>))"

text \<open>\<open>BankBranch.save\<close> reads the name of the branch's bank: the bank is fetched, and
  \<open>DoesNotExist\<close> is raised when it is not stored.\<close>

definition BankBranch_save ::
  "(string \<Rightarrow> string) \<Rightarrow> libraries \<Rightarrow> datetime \<Rightarrow> uuid \<Rightarrow> db \<Rightarrow> BankBranch
     \<Rightarrow> (error + BankBranch) \<times> db" where
  "BankBranch_save slugify L now uuid4 d self =
     (case (if BankBranch.slug self = ''''
            then (case get_by_pk (banks d) (BankBranch.bank_id self) of
                    Inl e \<Rightarrow> Inl e
                  | Inr bank \<Rightarrow>
                      Inr (unique_slugify slugify (bank_branches d) BankBranch.slug
                             (\<lambda>s r. r\<lparr>BankBranch.slug := s\<rparr>) self
                             (Bank.name bank @ '' '' @ BankBranch.name self)
                             (Some (filter (\<lambda>r. BankBranch.bank_id r = BankBranch.bank_id self)
                                      (bank_branches d)))
                             ''-''))
            else Inr self) of
        Inl e \<Rightarrow> (Inl e, d)
      | Inr self1 \<Rightarrow>
          (case AuditableModel_save L BankBranch_conflict now uuid4 None (bank_branches d) self1 of
             (res, tbl) \<Rightarrow> (res, d\<lparr>bank_branches := tbl\<rparr>)))"

definition BankAccount_save ::
  "libraries \<Rightarrow> datetime \<Rightarrow> uuid \<Rightarrow> db \<Rightarrow> BankAccount \<Rightarrow> (error + BankAccount) \<times> db" where
  "BankAccount_save L now uuid4 d self =
     (let tbl0 = (if BankAccount.is_primary self
                  then queryset_update
                         (\<lambda>r. BankAccount.person_id r = BankAccount.person_id self
                                \<and> BankAccount.is_primary r)
                         (\<lambda>r. r\<lparr>BankAccount.is_primary := False\<rparr>) (bank_accounts d)
                  else bank_accounts d)
      in case AuditableModel_save L BankAccount_conflict now uuid4 None tbl0 self of
           (res, tbl) \<Rightarrow> (res, d\<lparr>bank_accounts := tbl\<rparr>))"

definition SpecificWork_save ::
  "(string \<Rightarrow> string) \<Rightarrow> libraries \<Rightarrow> datetime \<Rightarrow> uuid \<Rightarrow> db \<Rightarrow> SpecificWork
     \<Rightarrow> (error + SpecificWork) \<times> db" where
  "SpecificWork_save slugify L now uuid4 d self =
     (let self1 = (if SpecificWork.slug self = ''''
                   then unique_slugify slugify (specific_works d) SpecificWork.slug
                          (\<lambda>s r. r\<lparr>SpecificWork.slug := s\<rparr>) self (SpecificWork.code self) None ''-''
                   else self)
      in case AuditableModel_save L SpecificWork_conflict now uuid4 None (specific_works d) self1 of
           (res, tbl) \<Rightarrow> (res, d\<lparr>specific_works := tbl\<rparr>))"

definition Person_save ::
  "(string \<Rightarrow> string) \<Rightarrow> libraries \<Rightarrow> datetime \<Rightarrow> uuid \<Rightarrow> (Person \<Rightarrow> Person \<Rightarrow> Person) option
     \<Rightarrow> db \<Rightarrow> Person \<Rightarrow> (error + Person) \<times> db" where
  "Person_save slugify L now uuid4 update_fields d self =
     (let self1 = (if Person.slug self = ''''
                   then (let base = (if Person.computer_code self \<noteq> ''''
                                     then Person.name self @ '' '' @ Person.computer_code self
                                     else Person.name self)
                         in unique_slugify slugify (persons d) Person.slug
                              (\<lambda>s r. r\<lparr>Person.slug := s\<rparr>) self base None ''-'')
                   else self)
      in case AuditableModel_save L Person_conflict now uuid4 update_fields (persons d) self1 of
           (res, tbl) \<Rightarrow> (res, d\<lparr>persons := tbl\<rparr>))"

definition PhoneNumber_save ::
  "libraries \<Rightarrow> datetime \<Rightarrow> uuid \<Rightarrow> db \<Rightarrow> PhoneNumber \<Rightarrow> (error + PhoneNumber) \<times> db" where
  "PhoneNumber_save L now uuid4 d self =
     (let tbl0 = (if PhoneNumber.is_primary self
                  then queryset_update
                         (\<lambda>r. PhoneNumber.person_id r = PhoneNumber.person_id self
                                \<and> PhoneNumber.is_primary r)
                         (\<lambda>r. r\<lparr>PhoneNumber.is_primary := False\<rparr>) (phone_numbers d)
                  else phone_numbers d)
      in case AuditableModel_save L PhoneNumber_conflict now uuid4 None tbl0 self of
           (res, tbl) \<Rightarrow> (res, d\<lparr>phone_numbers := tbl\<rparr>))"

definition EmailAddress_save ::
  "libraries \<Rightarrow> datetime \<Rightarrow> uuid \<Rightarrow> db \<Rightarrow> EmailAddress \<Rightarrow> (error + EmailAddress) \<times> db" where
  "EmailAddress_save L now uuid4 d self =
     (let tbl0 = (if EmailAddress.is_primary self
                  then queryset_update
                         (\<lambda>r. EmailAddress.person_id r = EmailAddress.person_id self
                                \<and> EmailAddress.is_primary r)
                         (\<lambda>r. r\<lparr>EmailAddress.is_primary := False\<rparr>) (emails d)
                  else emails d)
      in case AuditableModel_save L EmailAddress_conflict now uuid4 None tbl0 self of
           (res, tbl) \<Rightarrow> (res, d\<lparr>emails := tbl\<rparr>))"

subsection \<open>\<open>Person\<close>: soft delete, restore, full address, search\<close>

text \<open>The list \<open>['is_active', 'deleted_at']\<close> that both methods pass as \<open>update_fields\<close>.\<close>

definition is_active_deleted_at :: "Person \<Rightarrow> Person \<Rightarrow> Person" where
  "is_active_deleted_at self r = r\<lparr>is_active := is_active self, deleted_at := deleted_at self\<rparr>"

definition Person_soft_delete ::
  "(string \<Rightarrow> string) \<Rightarrow> libraries \<Rightarrow> datetime \<Rightarrow> uuid \<Rightarrow> db \<Rightarrow> Person \<Rightarrow> (error + Person) \<times> db" where
  "Person_soft_delete slugify L now uuid4 d self =
     Person_save slugify L now uuid4 (Some is_active_deleted_at) d
       (self\<lparr>is_active := False, deleted_at := Some now\<rparr>)"

definition Person_restore ::
  "(string \<Rightarrow> string) \<Rightarrow> libraries \<Rightarrow> datetime \<Rightarrow> uuid \<Rightarrow> db \<Rightarrow> Person \<Rightarrow> (error + Person) \<times> db" where
  "Person_restore slugify L now uuid4 d self =
     Person_save slugify L now uuid4 (Some is_active_deleted_at) d
       (self\<lparr>is_active := True, deleted_at := None\<rparr>)"

definition Person_full_address :: "db \<Rightarrow> Person \<Rightarrow> error + string" where
  "Person_full_address d self =
     (case branch_address_id self of
        None \<Rightarrow> Inr ''''
      | Some wid \<Rightarrow>
          (case get_by_pk (wards d) wid of
             Inl e \<Rightarrow> Inl e
           | Inr w \<Rightarrow>
               (case get_by_pk (municipalities d) (Ward.municipality_id w) of
                  Inl e \<Rightarrow> Inl e
                | Inr m \<Rightarrow>
                    (case get_by_pk (districts d) (Municipality.district_id m) of
                       Inl e \<Rightarrow> Inl e
                     | Inr dt \<Rightarrow>
                         (case get_by_pk (provinces d) (District.province_id dt) of
                            Inl e \<Rightarrow> Inl e
                          | Inr p \<Rightarrow>
                              Inr (''Ward '' @ str_nat (Ward.ward_no w) @ '', ''
                                     @ Municipality.name m @ '', '' @ District.name dt @ '', ''
                                     @ Province.name p))))))"

text \<open>The lookup \<open>icontains\<close>: containment without regard to case.\<close>

fun starts_with :: "string \<Rightarrow> string \<Rightarrow> bool" where
  "starts_with s [] = True"
| "starts_with [] (p # ps) = False"
| "starts_with (c # cs) (p # ps) = (c = p \<and> starts_with cs ps)"

fun contains :: "string \<Rightarrow> string \<Rightarrow> bool" where
  "contains [] needle = (needle = [])"
| "contains (c # cs) needle = (starts_with (c # cs) needle \<or> contains cs needle)"

definition icontains :: "string \<Rightarrow> string \<Rightarrow> bool" where
  "icontains field q = contains (map lower_char field) (map lower_char q)"

definition PersonManager_search :: "db \<Rightarrow> string option \<Rightarrow> Person list" where
  "PersonManager_search d q =
     (let qs = persons d
      in case q of
           None \<Rightarrow> qs
         | Some s \<Rightarrow>
             if s = '''' then qs
             else filter (\<lambda>p. icontains (Person.name p) s \<or> icontains (Person.identity_no p) s
                               \<or> icontains (Person.computer_code p) s) qs)"

subsection \<open>The admin actions\<close>

text \<open>The query set of an action is the rows the user ticked, given by their keys.\<close>

definition action_soft_delete :: "datetime \<Rightarrow> uuid list \<Rightarrow> db \<Rightarrow> db" where
  "action_soft_delete now selected d =
     d\<lparr>persons := queryset_update (\<lambda>r. pk r \<in> Some ` set selected)
                     (\<lambda>r. r\<lparr>is_active := False, deleted_at := Some now\<rparr>) (persons d)\<rparr>"

definition action_restore :: "uuid list \<Rightarrow> db \<Rightarrow> db" where
  "action_restore selected d =
     d\<lparr>persons := queryset_update (\<lambda>r. pk r \<in> Some ` set selected)
                     (\<lambda>r. r\<lparr>is_active := True, deleted_at := None\<rparr>) (persons d)\<rparr>"

subsection \<open>The states the save operations reach\<close>

inductive reachable :: "(string \<Rightarrow> string) \<Rightarrow> libraries \<Rightarrow> db \<Rightarrow> bool"
  for slugify :: "string \<Rightarrow> string" and L :: libraries where
  initial: "reachable slugify L empty_db"
| province: "reachable slugify L d \<Longrightarrow> reachable slugify L (snd (Province_save slugify L now u d p))"
| district: "reachable slugify L d \<Longrightarrow> reachable slugify L (snd (District_save slugify L now u d dt))"
| municipality:
    "reachable slugify L d \<Longrightarrow> reachable slugify L (snd (Municipality_save slugify L now u d m))"
| ward: "reachable slugify L d \<Longrightarrow> reachable slugify L (snd (Ward_save slugify L now u d w))"
| post: "reachable slugify L d \<Longrightarrow> reachable slugify L (snd (Post_save slugify L now u d po))"
| bank: "reachable slugify L d \<Longrightarrow> reachable slugify L (snd (Bank_save slugify L now u d b))"
| bank_branch:
    "reachable slugify L d \<Longrightarrow> reachable slugify L (snd (BankBranch_save slugify L now u d br))"
| bank_account: "reachable slugify L d \<Longrightarrow> reachable slugify L (snd (BankAccount_save L now u d a))"
| specific_work:
    "reachable slugify L d \<Longrightarrow> reachable slugify L (snd (SpecificWork_save slugify L now u d sw))"
| person: "reachable slugify L d \<Longrightarrow> reachable slugify L (snd (Person_save slugify L now u None d pe))"
| soft_delete:
    "reachable slugify L d \<Longrightarrow> reachable slugify L (snd (Person_soft_delete slugify L now u d pe))"
| restore:
    "reachable slugify L d \<Longrightarrow> reachable slugify L (snd (Person_restore slugify L now u d pe))"
| phone_number: "reachable slugify L d \<Longrightarrow> reachable slugify L (snd (PhoneNumber_save L now u d ph))"
| email_address: "reachable slugify L d \<Longrightarrow> reachable slugify L (snd (EmailAddress_save L now u d em))"

section \<open>Properties\<close>

subsection \<open>The slug that \<open>unique_slugify\<close> assigns\<close>

lemma slug_loop_free:
  "cur \<notin> slug_field ` set qs \<Longrightarrow> slug_loop slug_field qs orig sep cur n = cur"
  by (subst slug_loop.simps) auto

lemma slug_loop_taken:
  "cur \<in> slug_field ` set qs \<Longrightarrow>
   \<exists>k\<ge>n. slug_loop slug_field qs orig sep cur n = orig @ sep @ str_nat k
        \<and> orig @ sep @ str_nat k \<notin> slug_field ` set qs
        \<and> (\<forall>m. n \<le> m \<and> m < k \<longrightarrow> orig @ sep @ str_nat m \<in> slug_field ` set qs)"
proof (induction slug_field qs orig sep cur n rule: slug_loop.induct)
  case (1 slug_field queryset original_slug separator cur nxt)
  let ?S = "slug_field ` set queryset"
  let ?c = "\<lambda>k. original_slug @ separator @ str_nat k"
  from "1.prems" have ex: "\<exists>r\<in>set queryset. slug_field r = cur" by auto
  then have unfold: "slug_loop slug_field queryset original_slug separator cur nxt
      = slug_loop slug_field queryset original_slug separator (?c nxt) (nxt + 1)"
    by (subst slug_loop.simps) simp
  show ?case
  proof (cases "?c nxt \<in> ?S")
    case False
    then have "slug_loop slug_field queryset original_slug separator (?c nxt) (nxt + 1) = ?c nxt"
      by (rule slug_loop_free)
    with unfold False show ?thesis
      by (intro exI[of _ nxt]) auto
  next
    case True
    from "1.IH"[OF ex True] obtain k where k: "nxt + 1 \<le> k"
      and r: "slug_loop slug_field queryset original_slug separator (?c nxt) (nxt + 1) = ?c k"
      and f: "?c k \<notin> ?S"
      and b: "\<forall>m. nxt + 1 \<le> m \<and> m < k \<longrightarrow> ?c m \<in> ?S"
      by blast
    have "\<forall>m. nxt \<le> m \<and> m < k \<longrightarrow> ?c m \<in> ?S"
    proof (intro allI impI)
      fix m assume m: "nxt \<le> m \<and> m < k"
      show "?c m \<in> ?S"
      proof (cases "m = nxt")
        case True with \<open>?c nxt \<in> ?S\<close> show ?thesis by simp
      next
        case False with m b show ?thesis by simp
      qed
    qed
    with k r f unfold show ?thesis
      by (intro exI[of _ k]) auto
  qed
qed

text \<open>
  C4. \<open>unique_slugify\<close> sets the slug field of the instance to \<open>slugify(value)\<close> cut
  to 180 characters when no other row of the scoping query set (the rows whose key is
  the instance's own left out) has that slug; otherwise to the first of base, separator,
  \<open>n\<close> for \<open>n = 1, 2, 3, ...\<close> that no other row of the scope has.
\<close>

theorem unique_slugify_sets_first_free_slug:
  "let base = take 180 (slugify val);
       scope = (case queryset of None \<Rightarrow> objects | Some qs \<Rightarrow> qs);
       taken = {slug_field r | r. r \<in> set scope \<and> (pk inst = None \<or> pk r \<noteq> pk inst)};
       result = unique_slugify slugify objects slug_field set_slug inst val queryset separator
   in (base \<notin> taken \<longrightarrow> result = set_slug base inst) \<and>
      (base \<in> taken \<longrightarrow>
         (\<exists>n\<ge>1. result = set_slug (base @ separator @ str_nat n) inst
             \<and> base @ separator @ str_nat n \<notin> taken
             \<and> (\<forall>m. 1 \<le> m \<and> m < n \<longrightarrow> base @ separator @ str_nat m \<in> taken)))"
proof -
  define base where "base = take 180 (slugify val)"
  define scope where "scope = (case queryset of None \<Rightarrow> objects | Some qs \<Rightarrow> qs)"
  define others where "others = (case pk inst of None \<Rightarrow> scope
                                  | Some k \<Rightarrow> filter (\<lambda>r. pk r \<noteq> Some k) scope)"
  define taken where
    "taken = {slug_field r | r. r \<in> set scope \<and> (pk inst = None \<or> pk r \<noteq> pk inst)}"
  have t: "taken = slug_field ` set others"
    by (cases "pk inst") (auto simp: taken_def others_def)
  have u: "unique_slugify slugify objects slug_field set_slug inst val queryset separator
      = set_slug (slug_loop slug_field others base separator base 1) inst"
    unfolding unique_slugify_def Let_def base_def others_def scope_def ..
  have a: "base \<notin> taken \<Longrightarrow> slug_loop slug_field others base separator base 1 = base"
    unfolding t by (rule slug_loop_free)
  have b: "base \<in> taken \<Longrightarrow> \<exists>n\<ge>1. slug_loop slug_field others base separator base 1
              = base @ separator @ str_nat n
        \<and> base @ separator @ str_nat n \<notin> taken
        \<and> (\<forall>m. 1 \<le> m \<and> m < n \<longrightarrow> base @ separator @ str_nat m \<in> taken)"
    unfolding t by (rule slug_loop_taken)
  from a b show ?thesis
    unfolding Let_def u base_def[symmetric] scope_def[symmetric] taken_def[symmetric]
    by metis
qed

theorem unique_slugify_sets_first_free_slug_witness:
  "\<exists>n\<ge>1.
     unique_slugify slugify_ascii
       [\<lparr>pk = Some 1, created_at = None, updated_at = None, created_at_nepali = '''',
          updated_at_nepali = '''', created_by_id = None,
          Province.name = ''Bagmati'', slug = ''bagmati''\<rparr>,
        \<lparr>pk = Some 2, created_at = None, updated_at = None, created_at_nepali = '''',
          updated_at_nepali = '''', created_by_id = None,
          Province.name = ''bagmati'', slug = ''bagmati-1''\<rparr>]
       Province.slug (\<lambda>s r. r\<lparr>Province.slug := s\<rparr>)
       \<lparr>pk = Some 3, created_at = None, updated_at = None, created_at_nepali = '''',
         updated_at_nepali = '''', created_by_id = None,
         Province.name = ''BAGMATI'', slug = ''''\<rparr>
       ''BAGMATI'' None ''-''
     = \<lparr>pk = Some 3, created_at = None, updated_at = None, created_at_nepali = '''',
         updated_at_nepali = '''', created_by_id = None,
         Province.name = ''BAGMATI'', slug = ''bagmati-'' @ str_nat n\<rparr>
     \<and> ''bagmati-'' @ str_nat n \<noteq> ''bagmati-1''"
proof -
  let ?p1 = "\<lparr>pk = Some 1, created_at = None, updated_at = None, created_at_nepali = '''',
          updated_at_nepali = '''', created_by_id = None,
          Province.name = ''Bagmati'', slug = ''bagmati''\<rparr>"
  let ?p2 = "\<lparr>pk = Some 2, created_at = None, updated_at = None, created_at_nepali = '''',
          updated_at_nepali = '''', created_by_id = None,
          Province.name = ''bagmati'', slug = ''bagmati-1''\<rparr>"
  let ?p3 = "\<lparr>pk = Some 3, created_at = None, updated_at = None, created_at_nepali = '''',
         updated_at_nepali = '''', created_by_id = None,
         Province.name = ''BAGMATI'', slug = ''''\<rparr>"
  have s: "take 180 (slugify_ascii ''BAGMATI'') = ''bagmati''" by code_simp
  have t: "{Province.slug r | r. r \<in> set [?p1, ?p2] \<and> (pk ?p3 = None \<or> pk r \<noteq> pk ?p3)}
             = {''bagmati'', ''bagmati-1''}"
  proof -
    have "{Province.slug r | r. r \<in> set [?p1, ?p2] \<and> (pk ?p3 = None \<or> pk r \<noteq> pk ?p3)}
            = Province.slug ` set (filter (\<lambda>r. pk r \<noteq> pk ?p3) [?p1, ?p2])"
      by (simp only: set_filter) auto
    then show ?thesis by simp
  qed
  from unique_slugify_sets_first_free_slug[where slugify = slugify_ascii
        and val = "''BAGMATI''" and queryset = None and objects = "[?p1, ?p2]"
        and slug_field = Province.slug and inst = "?p3"
        and set_slug = "\<lambda>s r. r\<lparr>Province.slug := s\<rparr>" and separator = "''-''"]
  show ?thesis
    unfolding Let_def s option.case t by auto
qed

subsection \<open>What a save leaves in the table\<close>

text \<open>
  A save without \<open>update_fields\<close> either raises and leaves the table as it was, or
  stores the instance with its audit fields stamped (\<open>saved_as\<close>): in place of the row
  with its key, or as a new row (\<open>upsert\<close>). The second pass of \<open>AuditableModel.save\<close>
  cannot fail, because no declared uniqueness mentions the two Nepali fields
  (\<open>ignores_nepali\<close>).
\<close>

lemma Model_save_insert_or_replace:
  assumes "Model_save conflict now u None tbl self = (Inr X, t1)"
  shows "\<exists>p ca. X = self\<lparr>pk := Some p, created_at := ca, updated_at := Some now\<rparr>
           \<and> (pk self \<noteq> None \<longrightarrow> pk self = Some p)
           \<and> \<not> violates conflict tbl X
           \<and> ((\<exists>r\<in>set tbl. pk r = Some p) \<and> t1 = map (\<lambda>r. if pk r = Some p then X else r) tbl
               \<or> (\<forall>r\<in>set tbl. pk r \<noteq> Some p) \<and> t1 = tbl @ [X])"
proof (cases "pk self")
  case None
  with assms show ?thesis
    by (auto simp: Model_save_def Let_def split: if_splits intro!: exI[of _ u] exI[of _ "Some now"])
next
  case (Some k)
  show ?thesis
  proof (cases "\<exists>r\<in>set tbl. pk r = Some k")
    case True
    with Some assms have "X = self\<lparr>updated_at := Some now\<rparr>" "\<not> violates conflict tbl X"
      "t1 = map (\<lambda>r. if pk r = Some k then X else r) tbl"
      by (auto simp: Model_save_def Let_def split: if_splits)
    with Some True show ?thesis
      by (intro exI[of _ k] exI[of _ "created_at self"]) auto
  next
    case False
    with Some assms have "X = self\<lparr>created_at := Some now, updated_at := Some now\<rparr>"
      "\<not> violates conflict tbl X" "t1 = tbl @ [X]"
      by (auto simp: Model_save_def Let_def split: if_splits)
    with Some False show ?thesis
      by (intro exI[of _ k] exI[of _ "Some now"]) auto
  qed
qed

lemma Model_save_error_keeps:
  "Model_save conflict now u uf tbl self = (Inl e, t1) \<Longrightarrow> t1 = tbl"
  by (auto simp: Model_save_def Let_def split: if_splits option.splits)

lemma Model_save_update_fields:
  assumes "pk Y = Some p" and "\<exists>r\<in>set t1. pk r = Some p"
    and "\<forall>r\<in>set t1. pk r = Some p \<longrightarrow> \<not> violates conflict t1 (cp Y r)"
  shows "Model_save conflict now u (Some cp) t1 Y
           = (Inr Y, map (\<lambda>r. if pk r = Some p then cp Y r else r) t1)"
  using assms by (auto simp: Model_save_def)

definition ignores_nepali ::
  "('a AuditableModel_scheme \<Rightarrow> 'a AuditableModel_scheme \<Rightarrow> bool) \<Rightarrow> bool" where
  "ignores_nepali conflict \<longleftrightarrow>
     (\<forall>a b cn un. conflict (a\<lparr>created_at_nepali := cn, updated_at_nepali := un\<rparr>) b = conflict a b)"

definition saved_as ::
  "datetime \<Rightarrow> 'a AuditableModel_scheme \<Rightarrow> 'a AuditableModel_scheme \<Rightarrow> bool" where
  "saved_as now self S \<longleftrightarrow>
     (\<exists>p ca cn un. S = self\<lparr>pk := Some p, created_at := ca, updated_at := Some now,
                             created_at_nepali := cn, updated_at_nepali := un\<rparr>
        \<and> (pk self = None \<or> pk self = Some p))"

definition upsert ::
  "'a AuditableModel_scheme list \<Rightarrow> 'a AuditableModel_scheme \<Rightarrow> 'a AuditableModel_scheme list" where
  "upsert tbl S =
     (if \<exists>r\<in>set tbl. pk r = pk S then map (\<lambda>r. if pk r = pk S then S else r) tbl
      else tbl @ [S])"

lemma violates_nepali:
  "ignores_nepali conflict \<Longrightarrow>
   violates conflict tbl (X\<lparr>created_at_nepali := cn, updated_at_nepali := un\<rparr>)
     = violates conflict tbl X"
  by (simp add: violates_def ignores_nepali_def)

lemma second_pass:
  assumes blind: "ignores_nepali conflict"
    and pkX: "pk X = Some p"
    and ok: "\<not> violates conflict tbl X"
    and t1: "t1 = upsert tbl X"
    and Y: "Y = X\<lparr>created_at_nepali := cn, updated_at_nepali := un\<rparr>"
    and cp: "cp Y X = Y" "\<And>r. pk (cp Y r) = pk r"
  shows "Model_save conflict now u (Some cp) t1 Y = (Inr Y, upsert tbl Y)"
proof -
  have pkY: "pk Y = Some p" using pkX Y by simp
  have rows: "\<And>r. r \<in> set t1 \<Longrightarrow> pk r = Some p \<Longrightarrow> r = X"
    using t1 pkX by (auto simp: upsert_def split: if_splits)
  have ex: "\<exists>r\<in>set t1. pk r = Some p"
    using t1 pkX by (auto simp: upsert_def split: if_splits)
  have others: "\<And>r. r \<in> set t1 \<Longrightarrow> pk r \<noteq> Some p \<Longrightarrow> r \<in> set tbl"
    using t1 pkX by (auto simp: upsert_def split: if_splits)
  have vY: "\<not> violates conflict t1 Y"
  proof
    assume "violates conflict t1 Y"
    then obtain r where r: "r \<in> set t1" "pk r \<noteq> Some p" "conflict Y r"
      using pkY by (auto simp: violates_def)
    from r(3) blind Y have "conflict X r" by (simp add: ignores_nepali_def)
    with others[OF r(1,2)] r(2) pkX ok show False by (auto simp: violates_def)
  qed
  have v: "\<forall>r\<in>set t1. pk r = Some p \<longrightarrow> \<not> violates conflict t1 (cp Y r)"
    using rows cp(1) vY by auto
  have m: "map (\<lambda>r. if pk r = Some p then cp Y r else r) t1 = upsert tbl Y"
    using t1 pkX pkY cp(1) by (auto simp: upsert_def intro: map_idI)
  from Model_save_update_fields[where cp = cp, OF pkY ex v] m show ?thesis by simp
qed

lemma AuditableModel_save_result:
  assumes blind: "ignores_nepali conflict"
    and run: "AuditableModel_save L conflict now u None tbl self = (res, t2)"
  shows "(\<exists>e. res = Inl e \<and> t2 = tbl)
       \<or> (\<exists>S. res = Inr S \<and> saved_as now self S \<and> \<not> violates conflict tbl S \<and> t2 = upsert tbl S)"
proof (cases "Model_save conflict now u None tbl self")
  case (Pair r1 t1)
  show ?thesis
  proof (cases r1)
    case (Inl e)
    with Pair run have "res = Inl e" "t2 = t1"
      by (auto simp: AuditableModel_save_def Let_def split: if_splits)
    moreover from Pair Inl have "t1 = tbl" by (auto dest: Model_save_error_keeps)
    ultimately show ?thesis by simp
  next
    case (Inr X)
    from Model_save_insert_or_replace[OF Pair[unfolded Inr]] obtain p ca where
      X: "X = self\<lparr>pk := Some p, created_at := ca, updated_at := Some now\<rparr>"
      and keep: "pk self \<noteq> None \<longrightarrow> pk self = Some p"
      and ok: "\<not> violates conflict tbl X"
      and t1: "(\<exists>r\<in>set tbl. pk r = Some p) \<and> t1 = map (\<lambda>r. if pk r = Some p then X else r) tbl
               \<or> (\<forall>r\<in>set tbl. pk r \<noteq> Some p) \<and> t1 = tbl @ [X]"
      by blast
    have pkX: "pk X = Some p" using X by simp
    from t1 pkX have t1': "t1 = upsert tbl X" by (auto simp: upsert_def)
    define cn where "cn = (if pk self = None then gregorian_to_nepali_string L (created_at X)
                           else created_at_nepali X)"
    define un where "un = gregorian_to_nepali_string L (updated_at X)"
    define Y where "Y = X\<lparr>created_at_nepali := cn, updated_at_nepali := un\<rparr>"
    have second: "Model_save conflict now u (Some cp) t1 Y = (Inr Y, upsert tbl Y)"
      if "cp Y X = Y" "\<And>r. pk (cp Y r) = pk r" for cp
      using second_pass[where cp = cp, OF blind pkX ok t1' Y_def that] .
    have "(res, t2) = (Inr Y, upsert tbl Y)"
    proof (cases "pk self")
      case None
      then have "AuditableModel_save L conflict now u None tbl self
          = Model_save conflict now u (Some created_at_nepali_updated_at_nepali) t1 Y"
        using Pair Inr by (simp add: AuditableModel_save_def Let_def Y_def cn_def un_def)
      also have "\<dots> = (Inr Y, upsert tbl Y)"
        by (rule second) (simp_all add: created_at_nepali_updated_at_nepali_def Y_def)
      finally show ?thesis using run by simp
    next
      case (Some k)
      then have "AuditableModel_save L conflict now u None tbl self
          = Model_save conflict now u (Some only_updated_at_nepali) t1 Y"
        using Pair Inr by (simp add: AuditableModel_save_def Let_def Y_def cn_def un_def)
      also have "\<dots> = (Inr Y, upsert tbl Y)"
        by (rule second) (simp_all add: only_updated_at_nepali_def Y_def cn_def Some)
      finally show ?thesis using run by simp
    qed
    moreover have "saved_as now self Y"
      unfolding saved_as_def Y_def X using keep
      by (intro exI[of _ p] exI[of _ ca] exI[of _ cn] exI[of _ un]) auto
    moreover have "\<not> violates conflict tbl Y"
      unfolding Y_def using ok blind by (simp add: violates_nepali)
    ultimately show ?thesis by auto
  qed
qed

subsection \<open>Invariants of a table\<close>

text \<open>
  \<open>table_inv\<close>: every key occurs once and no two rows of different keys conflict, which
  is what the database enforces. \<open>primary_ok\<close>: two primary rows of one person are the
  same row.
\<close>

lemma set_upsert: "set (upsert tbl S) = insert S {r \<in> set tbl. pk r \<noteq> pk S}"
  by (auto simp: upsert_def)

lemma map_pk_upsert:
  "map pk (upsert tbl S) = (if pk S \<in> set (map pk tbl) then map pk tbl else map pk tbl @ [pk S])"
proof -
  have m: "map pk (map (\<lambda>r. if pk r = pk S then S else r) tbl) = map pk tbl"
    by (induction tbl) auto
  show ?thesis
  proof (cases "\<exists>r\<in>set tbl. pk r = pk S")
    case True
    then have "pk S \<in> set (map pk tbl)" by (auto simp: image_iff) metis
    with True m show ?thesis by (simp add: upsert_def del: map_map)
  next
    case False
    then have "pk S \<notin> set (map pk tbl)" by (auto simp: image_iff)
    with False show ?thesis by (simp add: upsert_def)
  qed
qed

lemma distinct_pk_upsert: "distinct (map pk tbl) \<Longrightarrow> distinct (map pk (upsert tbl S))"
  by (simp add: map_pk_upsert)

definition table_inv ::
  "('a AuditableModel_scheme \<Rightarrow> 'a AuditableModel_scheme \<Rightarrow> bool)
     \<Rightarrow> 'a AuditableModel_scheme list \<Rightarrow> bool" where
  "table_inv conflict tbl \<longleftrightarrow>
     distinct (map pk tbl) \<and> (\<forall>r\<in>set tbl. \<forall>r'\<in>set tbl. pk r \<noteq> pk r' \<longrightarrow> \<not> conflict r r')"

lemma table_inv_empty: "table_inv conflict []"
  by (simp add: table_inv_def)

lemma table_inv_upsert:
  assumes "table_inv conflict tbl" and sym: "\<And>a b. conflict a b = conflict b a"
    and "\<not> violates conflict tbl S"
  shows "table_inv conflict (upsert tbl S)"
  unfolding table_inv_def
proof (intro conjI ballI impI)
  show "distinct (map pk (upsert tbl S))"
    using assms(1) by (simp add: table_inv_def distinct_pk_upsert)
next
  fix r r' assume r: "r \<in> set (upsert tbl S)" and r': "r' \<in> set (upsert tbl S)"
    and ne: "pk r \<noteq> pk r'"
  from assms(3) have v: "\<And>x. x \<in> set tbl \<Longrightarrow> pk x \<noteq> pk S \<Longrightarrow> \<not> conflict S x"
    by (auto simp: violates_def)
  from r r' ne show "\<not> conflict r r'"
    using assms(1) v sym by (auto simp: set_upsert table_inv_def)
qed

lemma table_inv_map:
  assumes "table_inv conflict tbl" and "\<And>r. pk (f r) = pk r"
    and "\<And>a b. conflict (f a) (f b) = conflict a b"
  shows "table_inv conflict (map f tbl)"
proof -
  have m: "map pk (map f tbl) = map pk tbl"
    by (induction tbl) (auto simp: assms(2))
  from assms(1) have "distinct (map pk (map f tbl))"
    unfolding m by (simp add: table_inv_def)
  moreover from assms have "\<forall>r\<in>set (map f tbl). \<forall>r'\<in>set (map f tbl). pk r \<noteq> pk r' \<longrightarrow> \<not> conflict r r'"
    by (auto simp: table_inv_def)
  ultimately show ?thesis unfolding table_inv_def by blast
qed

lemma table_inv_AuditableModel_save:
  assumes "table_inv conflict tbl" and "ignores_nepali conflict"
    and "\<And>a b. conflict a b = conflict b a"
  shows "table_inv conflict (snd (AuditableModel_save L conflict now u None tbl self))"
proof -
  obtain res t2 where run: "AuditableModel_save L conflict now u None tbl self = (res, t2)"
    by (cases "AuditableModel_save L conflict now u None tbl self")
  from AuditableModel_save_result[OF assms(2) run] assms(1,3) show ?thesis
    by (auto simp: run intro: table_inv_upsert)
qed

lemma table_inv_distinct_key:
  assumes "table_inv conflict tbl" and "\<And>a b. key a = key b \<Longrightarrow> conflict a b"
  shows "distinct (map key tbl)"
proof -
  from assms(1) have d: "distinct tbl" and i: "inj_on pk (set tbl)"
    by (auto simp: table_inv_def distinct_map)
  have "inj_on key (set tbl)"
  proof (rule inj_onI)
    fix a b assume a: "a \<in> set tbl" and b: "b \<in> set tbl" and k: "key a = key b"
    from assms(2)[OF k] assms(1) a b have "pk a = pk b" by (auto simp: table_inv_def)
    with i a b show "a = b" by (auto dest: inj_onD)
  qed
  with d show ?thesis by (simp add: distinct_map)
qed

definition primary_ok ::
  "('a AuditableModel_scheme \<Rightarrow> uuid) \<Rightarrow> ('a AuditableModel_scheme \<Rightarrow> bool)
     \<Rightarrow> 'a AuditableModel_scheme list \<Rightarrow> bool" where
  "primary_ok person prim tbl \<longleftrightarrow>
     (\<forall>r\<in>set tbl. \<forall>r'\<in>set tbl. person r = person r' \<and> prim r \<and> prim r' \<longrightarrow> pk r = pk r')"

lemma primary_ok_update:
  assumes "primary_ok person prim tbl"
    and "\<And>r. pk (clr r) = pk r \<and> person (clr r) = person r \<and> \<not> prim (clr r)"
  shows "primary_ok person prim (queryset_update sel clr tbl)"
  using assms by (auto simp: primary_ok_def queryset_update_def)

lemma cleared_update:
  assumes "\<And>r. person (clr r) = person r \<and> \<not> prim (clr r)"
    and "r \<in> set (queryset_update (\<lambda>r. person r = p \<and> prim r) clr tbl)"
    and "person r = p"
  shows "\<not> prim r"
  using assms by (auto simp: queryset_update_def split: if_splits)

lemma primary_ok_upsert:
  assumes ok: "primary_ok person prim tbl"
    and cl: "prim S \<Longrightarrow> \<forall>r\<in>set tbl. person r = person S \<longrightarrow> \<not> prim r"
  shows "primary_ok person prim (upsert tbl S)"
  unfolding primary_ok_def
proof (intro ballI impI)
  fix r r'
  assume r: "r \<in> set (upsert tbl S)" and r': "r' \<in> set (upsert tbl S)"
    and h: "person r = person r' \<and> prim r \<and> prim r'"
  from r have a: "r = S \<or> r \<in> set tbl" unfolding set_upsert by blast
  from r' have b: "r' = S \<or> r' \<in> set tbl" unfolding set_upsert by blast
  show "pk r = pk r'"
  proof (cases "r = S")
    case True
    note rS = this
    show ?thesis
    proof (cases "r' = S")
      case True
      with rS show ?thesis by simp
    next
      case False
      with b have "r' \<in> set tbl" by simp
      moreover from h rS have "prim S" "person r' = person S" "prim r'" by simp_all
      ultimately show ?thesis using cl by blast
    qed
  next
    case False
    with a have rt: "r \<in> set tbl" by simp
    show ?thesis
    proof (cases "r' = S")
      case True
      with h have "prim S" "person r = person S" "prim r" by simp_all
      with rt cl show ?thesis by blast
    next
      case False
      with b have "r' \<in> set tbl" by simp
      with rt h ok show ?thesis unfolding primary_ok_def by blast
    qed
  qed
qed

lemma table_inv_update:
  assumes "table_inv conflict tbl" and "\<And>r. pk (clr r) = pk r"
    and "\<And>a b. conflict (clr a) b = conflict a b" "\<And>a b. conflict a (clr b) = conflict a b"
  shows "table_inv conflict (queryset_update sel clr tbl)"
  unfolding queryset_update_def
  by (rule table_inv_map[OF assms(1)]) (auto simp: assms)

lemma BankAccount_saved_as:
  "saved_as now self S \<Longrightarrow>
     BankAccount.is_primary S = BankAccount.is_primary self
     \<and> BankAccount.person_id S = BankAccount.person_id self"
  unfolding saved_as_def by (elim exE conjE) simp

lemma sym_BankAccount_conflict: "BankAccount_conflict a b = BankAccount_conflict b a"
  by (auto simp: BankAccount_conflict_def)

lemma nepali_BankAccount_conflict: "ignores_nepali BankAccount_conflict"
  by (simp add: ignores_nepali_def BankAccount_conflict_def)

subsection \<open>Saving a primary bank account, phone number or email address\<close>


lemma PhoneNumber_saved_as:
  "saved_as now self S \<Longrightarrow>
     PhoneNumber.is_primary S = PhoneNumber.is_primary self
     \<and> PhoneNumber.person_id S = PhoneNumber.person_id self"
  unfolding saved_as_def by (elim exE conjE) simp

lemma EmailAddress_saved_as:
  "saved_as now self S \<Longrightarrow>
     EmailAddress.is_primary S = EmailAddress.is_primary self
     \<and> EmailAddress.person_id S = EmailAddress.person_id self"
  unfolding saved_as_def by (elim exE conjE) simp

lemma sym_PhoneNumber_conflict: "PhoneNumber_conflict a b = PhoneNumber_conflict b a"
  by (auto simp: PhoneNumber_conflict_def)

lemma nepali_PhoneNumber_conflict: "ignores_nepali PhoneNumber_conflict"
  by (simp add: ignores_nepali_def PhoneNumber_conflict_def)

lemma sym_EmailAddress_conflict: "EmailAddress_conflict a b = EmailAddress_conflict b a"
  by (auto simp: EmailAddress_conflict_def)

lemma nepali_EmailAddress_conflict: "ignores_nepali EmailAddress_conflict"
  by (simp add: ignores_nepali_def EmailAddress_conflict_def)

lemma BankAccount_save_unfold:
  "BankAccount_save L now u d self =
     (fst (AuditableModel_save L BankAccount_conflict now u None
             (if BankAccount.is_primary self
              then queryset_update
                     (\<lambda>r. BankAccount.person_id r = BankAccount.person_id self \<and> BankAccount.is_primary r)
                     (\<lambda>r. r\<lparr>BankAccount.is_primary := False\<rparr>) (bank_accounts d)
              else bank_accounts d) self),
      d\<lparr>bank_accounts := snd (AuditableModel_save L BankAccount_conflict now u None
             (if BankAccount.is_primary self
              then queryset_update
                     (\<lambda>r. BankAccount.person_id r = BankAccount.person_id self \<and> BankAccount.is_primary r)
                     (\<lambda>r. r\<lparr>BankAccount.is_primary := False\<rparr>) (bank_accounts d)
              else bank_accounts d) self)\<rparr>)"
  unfolding BankAccount_save_def Let_def by (simp add: case_prod_beta)

lemma PhoneNumber_save_unfold:
  "PhoneNumber_save L now u d self =
     (fst (AuditableModel_save L PhoneNumber_conflict now u None
             (if PhoneNumber.is_primary self
              then queryset_update
                     (\<lambda>r. PhoneNumber.person_id r = PhoneNumber.person_id self \<and> PhoneNumber.is_primary r)
                     (\<lambda>r. r\<lparr>PhoneNumber.is_primary := False\<rparr>) (phone_numbers d)
              else phone_numbers d) self),
      d\<lparr>phone_numbers := snd (AuditableModel_save L PhoneNumber_conflict now u None
             (if PhoneNumber.is_primary self
              then queryset_update
                     (\<lambda>r. PhoneNumber.person_id r = PhoneNumber.person_id self \<and> PhoneNumber.is_primary r)
                     (\<lambda>r. r\<lparr>PhoneNumber.is_primary := False\<rparr>) (phone_numbers d)
              else phone_numbers d) self)\<rparr>)"
  unfolding PhoneNumber_save_def Let_def by (simp add: case_prod_beta)

lemma EmailAddress_save_unfold:
  "EmailAddress_save L now u d self =
     (fst (AuditableModel_save L EmailAddress_conflict now u None
             (if EmailAddress.is_primary self
              then queryset_update
                     (\<lambda>r. EmailAddress.person_id r = EmailAddress.person_id self \<and> EmailAddress.is_primary r)
                     (\<lambda>r. r\<lparr>EmailAddress.is_primary := False\<rparr>) (emails d)
              else emails d) self),
      d\<lparr>emails := snd (AuditableModel_save L EmailAddress_conflict now u None
             (if EmailAddress.is_primary self
              then queryset_update
                     (\<lambda>r. EmailAddress.person_id r = EmailAddress.person_id self \<and> EmailAddress.is_primary r)
                     (\<lambda>r. r\<lparr>EmailAddress.is_primary := False\<rparr>) (emails d)
              else emails d) self)\<rparr>)"
  unfolding EmailAddress_save_def Let_def by (simp add: case_prod_beta)

text \<open>
  A concrete installation for the instances below: the server runs in UTC, the package
  \<open>nepali_datetime\<close> is not installed, and \<open>strftime\<close> knows the two formats the
  module uses.
\<close>

definition utc_without_nepali :: libraries where
  "utc_without_nepali =
     \<lparr>NEPALI_AVAILABLE = False, from_datetime_date = (\<lambda>_. None),
      make_aware = (\<lambda>dt. dt\<lparr>utcoffset := Some 0\<rparr>), localtime = (\<lambda>dt. dt),
      strftime = (\<lambda>dt fmt.
        (if fmt = ''%H:%M:%S'' then []
         else zero_pad 4 (year dt) @ ''-'' @ zero_pad 2 (month dt) @ ''-''
                @ zero_pad 2 (day dt) @ '' '')
        @ zero_pad 2 (hour dt) @ '':'' @ zero_pad 2 (minute dt) @ '':''
        @ zero_pad 2 (second dt))\<rparr>"



subsection \<open>The invariant of the database\<close>

text \<open>Every declared uniqueness is symmetric and mentions neither Nepali field.\<close>

lemma sym_Province_conflict: "Province_conflict a b = Province_conflict b a"
  by (auto simp: Province_conflict_def)
lemma nepali_Province_conflict: "ignores_nepali Province_conflict"
  by (simp add: ignores_nepali_def Province_conflict_def)
lemma sym_District_conflict: "District_conflict a b = District_conflict b a"
  by (auto simp: District_conflict_def)
lemma nepali_District_conflict: "ignores_nepali District_conflict"
  by (simp add: ignores_nepali_def District_conflict_def)
lemma sym_Municipality_conflict: "Municipality_conflict a b = Municipality_conflict b a"
  by (auto simp: Municipality_conflict_def)
lemma nepali_Municipality_conflict: "ignores_nepali Municipality_conflict"
  by (simp add: ignores_nepali_def Municipality_conflict_def)
lemma sym_Ward_conflict: "Ward_conflict a b = Ward_conflict b a"
  by (auto simp: Ward_conflict_def)
lemma nepali_Ward_conflict: "ignores_nepali Ward_conflict"
  by (simp add: ignores_nepali_def Ward_conflict_def)
lemma sym_Post_conflict: "Post_conflict a b = Post_conflict b a"
  by (auto simp: Post_conflict_def)
lemma nepali_Post_conflict: "ignores_nepali Post_conflict"
  by (simp add: ignores_nepali_def Post_conflict_def)
lemma sym_Bank_conflict: "Bank_conflict a b = Bank_conflict b a"
  by (auto simp: Bank_conflict_def)
lemma nepali_Bank_conflict: "ignores_nepali Bank_conflict"
  by (simp add: ignores_nepali_def Bank_conflict_def)
lemma sym_BankBranch_conflict: "BankBranch_conflict a b = BankBranch_conflict b a"
  by (auto simp: BankBranch_conflict_def)
lemma nepali_BankBranch_conflict: "ignores_nepali BankBranch_conflict"
  by (simp add: ignores_nepali_def BankBranch_conflict_def)
lemma sym_SpecificWork_conflict: "SpecificWork_conflict a b = SpecificWork_conflict b a"
  by (auto simp: SpecificWork_conflict_def)
lemma nepali_SpecificWork_conflict: "ignores_nepali SpecificWork_conflict"
  by (simp add: ignores_nepali_def SpecificWork_conflict_def)
lemma sym_Person_conflict: "Person_conflict a b = Person_conflict b a"
  by (auto simp: Person_conflict_def)
lemma nepali_Person_conflict: "ignores_nepali Person_conflict"
  by (simp add: ignores_nepali_def Person_conflict_def)

text \<open>The invariant that every save operation keeps: each table satisfies its declared
  uniqueness, and each person has at most one primary row in each of the three tables.\<close>

definition db_inv :: "db \<Rightarrow> bool" where
  "db_inv d \<longleftrightarrow>
     table_inv Province_conflict (provinces d)
     \<and> table_inv District_conflict (districts d)
     \<and> table_inv Municipality_conflict (municipalities d)
     \<and> table_inv Ward_conflict (wards d)
     \<and> table_inv Post_conflict (posts d)
     \<and> table_inv Bank_conflict (banks d)
     \<and> table_inv BankBranch_conflict (bank_branches d)
     \<and> table_inv BankAccount_conflict (bank_accounts d)
     \<and> table_inv SpecificWork_conflict (specific_works d)
     \<and> table_inv Person_conflict (persons d)
     \<and> table_inv PhoneNumber_conflict (phone_numbers d)
     \<and> table_inv EmailAddress_conflict (emails d)
     \<and> primary_ok BankAccount.person_id BankAccount.is_primary (bank_accounts d)
     \<and> primary_ok PhoneNumber.person_id PhoneNumber.is_primary (phone_numbers d)
     \<and> primary_ok EmailAddress.person_id EmailAddress.is_primary (emails d)"

lemma db_inv_empty: "db_inv empty_db"
  by (simp add: db_inv_def empty_db_def table_inv_def primary_ok_def)

lemma Province_save_snd:
  "\<exists>self1. snd (Province_save slugify L now u d self)
     = d\<lparr>provinces := snd (AuditableModel_save L Province_conflict now u None (provinces d) self1)\<rparr>"
  unfolding Province_save_def Let_def by (auto simp: case_prod_beta)

lemma db_inv_Province_save: "db_inv d \<Longrightarrow> db_inv (snd (Province_save slugify L now u d self))"
proof -
  assume i: "db_inv d"
  obtain self1 where e: "snd (Province_save slugify L now u d self)
     = d\<lparr>provinces := snd (AuditableModel_save L Province_conflict now u None (provinces d) self1)\<rparr>"
    using Province_save_snd by blast
  from i have "table_inv Province_conflict (provinces d)" by (simp add: db_inv_def)
  then have "table_inv Province_conflict
      (snd (AuditableModel_save L Province_conflict now u None (provinces d) self1))"
    by (rule table_inv_AuditableModel_save[OF _ nepali_Province_conflict sym_Province_conflict])
  with i show ?thesis unfolding e by (simp add: db_inv_def)
qed

lemma District_save_snd:
  "\<exists>self1. snd (District_save slugify L now u d self)
     = d\<lparr>districts := snd (AuditableModel_save L District_conflict now u None (districts d) self1)\<rparr>"
  unfolding District_save_def Let_def by (auto simp: case_prod_beta)

lemma db_inv_District_save: "db_inv d \<Longrightarrow> db_inv (snd (District_save slugify L now u d self))"
proof -
  assume i: "db_inv d"
  obtain self1 where e: "snd (District_save slugify L now u d self)
     = d\<lparr>districts := snd (AuditableModel_save L District_conflict now u None (districts d) self1)\<rparr>"
    using District_save_snd by blast
  from i have "table_inv District_conflict (districts d)" by (simp add: db_inv_def)
  then have "table_inv District_conflict
      (snd (AuditableModel_save L District_conflict now u None (districts d) self1))"
    by (rule table_inv_AuditableModel_save[OF _ nepali_District_conflict sym_District_conflict])
  with i show ?thesis unfolding e by (simp add: db_inv_def)
qed

lemma Municipality_save_snd:
  "\<exists>self1. snd (Municipality_save slugify L now u d self)
     = d\<lparr>municipalities := snd (AuditableModel_save L Municipality_conflict now u None (municipalities d) self1)\<rparr>"
  unfolding Municipality_save_def Let_def by (auto simp: case_prod_beta)

lemma db_inv_Municipality_save: "db_inv d \<Longrightarrow> db_inv (snd (Municipality_save slugify L now u d self))"
proof -
  assume i: "db_inv d"
  obtain self1 where e: "snd (Municipality_save slugify L now u d self)
     = d\<lparr>municipalities := snd (AuditableModel_save L Municipality_conflict now u None (municipalities d) self1)\<rparr>"
    using Municipality_save_snd by blast
  from i have "table_inv Municipality_conflict (municipalities d)" by (simp add: db_inv_def)
  then have "table_inv Municipality_conflict
      (snd (AuditableModel_save L Municipality_conflict now u None (municipalities d) self1))"
    by (rule table_inv_AuditableModel_save[OF _ nepali_Municipality_conflict sym_Municipality_conflict])
  with i show ?thesis unfolding e by (simp add: db_inv_def)
qed

lemma Ward_save_snd:
  "\<exists>self1. snd (Ward_save slugify L now u d self)
     = d\<lparr>wards := snd (AuditableModel_save L Ward_conflict now u None (wards d) self1)\<rparr>"
  unfolding Ward_save_def Let_def by (auto simp: case_prod_beta)

lemma db_inv_Ward_save: "db_inv d \<Longrightarrow> db_inv (snd (Ward_save slugify L now u d self))"
proof -
  assume i: "db_inv d"
  obtain self1 where e: "snd (Ward_save slugify L now u d self)
     = d\<lparr>wards := snd (AuditableModel_save L Ward_conflict now u None (wards d) self1)\<rparr>"
    using Ward_save_snd by blast
  from i have "table_inv Ward_conflict (wards d)" by (simp add: db_inv_def)
  then have "table_inv Ward_conflict
      (snd (AuditableModel_save L Ward_conflict now u None (wards d) self1))"
    by (rule table_inv_AuditableModel_save[OF _ nepali_Ward_conflict sym_Ward_conflict])
  with i show ?thesis unfolding e by (simp add: db_inv_def)
qed

lemma Post_save_snd:
  "\<exists>self1. snd (Post_save slugify L now u d self)
     = d\<lparr>posts := snd (AuditableModel_save L Post_conflict now u None (posts d) self1)\<rparr>"
  unfolding Post_save_def Let_def by (auto simp: case_prod_beta)

lemma db_inv_Post_save: "db_inv d \<Longrightarrow> db_inv (snd (Post_save slugify L now u d self))"
proof -
  assume i: "db_inv d"
  obtain self1 where e: "snd (Post_save slugify L now u d self)
     = d\<lparr>posts := snd (AuditableModel_save L Post_conflict now u None (posts d) self1)\<rparr>"
    using Post_save_snd by blast
  from i have "table_inv Post_conflict (posts d)" by (simp add: db_inv_def)
  then have "table_inv Post_conflict
      (snd (AuditableModel_save L Post_conflict now u None (posts d) self1))"
    by (rule table_inv_AuditableModel_save[OF _ nepali_Post_conflict sym_Post_conflict])
  with i show ?thesis unfolding e by (simp add: db_inv_def)
qed

lemma Bank_save_snd:
  "\<exists>self1. snd (Bank_save slugify L now u d self)
     = d\<lparr>banks := snd (AuditableModel_save L Bank_conflict now u None (banks d) self1)\<rparr>"
  unfolding Bank_save_def Let_def by (auto simp: case_prod_beta)

lemma db_inv_Bank_save: "db_inv d \<Longrightarrow> db_inv (snd (Bank_save slugify L now u d self))"
proof -
  assume i: "db_inv d"
  obtain self1 where e: "snd (Bank_save slugify L now u d self)
     = d\<lparr>banks := snd (AuditableModel_save L Bank_conflict now u None (banks d) self1)\<rparr>"
    using Bank_save_snd by blast
  from i have "table_inv Bank_conflict (banks d)" by (simp add: db_inv_def)
  then have "table_inv Bank_conflict
      (snd (AuditableModel_save L Bank_conflict now u None (banks d) self1))"
    by (rule table_inv_AuditableModel_save[OF _ nepali_Bank_conflict sym_Bank_conflict])
  with i show ?thesis unfolding e by (simp add: db_inv_def)
qed

lemma SpecificWork_save_snd:
  "\<exists>self1. snd (SpecificWork_save slugify L now u d self)
     = d\<lparr>specific_works := snd (AuditableModel_save L SpecificWork_conflict now u None (specific_works d) self1)\<rparr>"
  unfolding SpecificWork_save_def Let_def by (auto simp: case_prod_beta)

lemma db_inv_SpecificWork_save: "db_inv d \<Longrightarrow> db_inv (snd (SpecificWork_save slugify L now u d self))"
proof -
  assume i: "db_inv d"
  obtain self1 where e: "snd (SpecificWork_save slugify L now u d self)
     = d\<lparr>specific_works := snd (AuditableModel_save L SpecificWork_conflict now u None (specific_works d) self1)\<rparr>"
    using SpecificWork_save_snd by blast
  from i have "table_inv SpecificWork_conflict (specific_works d)" by (simp add: db_inv_def)
  then have "table_inv SpecificWork_conflict
      (snd (AuditableModel_save L SpecificWork_conflict now u None (specific_works d) self1))"
    by (rule table_inv_AuditableModel_save[OF _ nepali_SpecificWork_conflict sym_SpecificWork_conflict])
  with i show ?thesis unfolding e by (simp add: db_inv_def)
qed

lemma BankBranch_save_snd:
  "snd (BankBranch_save slugify L now u d self) = d
   \<or> (\<exists>self1. snd (BankBranch_save slugify L now u d self)
     = d\<lparr>bank_branches :=
          snd (AuditableModel_save L BankBranch_conflict now u None (bank_branches d) self1)\<rparr>)"
  unfolding BankBranch_save_def Let_def
  by (auto simp: case_prod_beta split: sum.splits)

lemma db_inv_BankBranch_save:
  "db_inv d \<Longrightarrow> db_inv (snd (BankBranch_save slugify L now u d self))"
proof -
  assume i: "db_inv d"
  from BankBranch_save_snd[of slugify L now u d self] show ?thesis
  proof
    assume "snd (BankBranch_save slugify L now u d self) = d"
    with i show ?thesis by simp
  next
    assume "\<exists>self1. snd (BankBranch_save slugify L now u d self)
     = d\<lparr>bank_branches :=
          snd (AuditableModel_save L BankBranch_conflict now u None (bank_branches d) self1)\<rparr>"
    then obtain self1 where e: "snd (BankBranch_save slugify L now u d self)
     = d\<lparr>bank_branches :=
          snd (AuditableModel_save L BankBranch_conflict now u None (bank_branches d) self1)\<rparr>"
      by blast
    from i have "table_inv BankBranch_conflict (bank_branches d)" by (simp add: db_inv_def)
    then have "table_inv BankBranch_conflict
        (snd (AuditableModel_save L BankBranch_conflict now u None (bank_branches d) self1))"
      by (rule table_inv_AuditableModel_save[OF _ nepali_BankBranch_conflict sym_BankBranch_conflict])
    with i show ?thesis unfolding e by (simp add: db_inv_def)
  qed
qed

lemma primary_ok_AuditableModel_save:
  assumes ok: "primary_ok person prim tbl"
    and nep: "ignores_nepali conflict"
    and clr: "\<And>r. pk (clr r) = pk r \<and> person (clr r) = person r \<and> \<not> prim (clr r)"
    and keep: "\<And>X. saved_as now self X \<Longrightarrow> prim X = prim self \<and> person X = person self"
  shows "primary_ok person prim
           (snd (AuditableModel_save L conflict now u None
                   (if prim self
                    then queryset_update (\<lambda>r. person r = person self \<and> prim r) clr tbl
                    else tbl) self))"
proof -
  define tbl0 where "tbl0 = (if prim self
      then queryset_update (\<lambda>r. person r = person self \<and> prim r) clr tbl else tbl)"
  have ok0: "primary_ok person prim tbl0"
    unfolding tbl0_def using ok clr by (simp add: primary_ok_update)
  have c: "\<And>r. prim self \<Longrightarrow> r \<in> set tbl0 \<Longrightarrow> person r = person self \<Longrightarrow> \<not> prim r"
  proof -
    fix r assume p: "prim self" and r: "r \<in> set tbl0" and q: "person r = person self"
    from p r have "r \<in> set (queryset_update (\<lambda>r. person r = person self \<and> prim r) clr tbl)"
      by (simp add: tbl0_def)
    then show "\<not> prim r"
      by (rule cleared_update[where person = person and clr = clr, rotated]) (simp_all add: clr q)
  qed
  obtain res t2 where run: "AuditableModel_save L conflict now u None tbl0 self = (res, t2)"
    by (cases "AuditableModel_save L conflict now u None tbl0 self")
  from AuditableModel_save_result[OF nep run]
  have "primary_ok person prim t2"
  proof
    assume "\<exists>e. res = Inl e \<and> t2 = tbl0"
    with ok0 show ?thesis by blast
  next
    assume "\<exists>S. res = Inr S \<and> saved_as now self S \<and> \<not> violates conflict tbl0 S
              \<and> t2 = upsert tbl0 S"
    then obtain S where sv: "saved_as now self S" and t2: "t2 = upsert tbl0 S" by blast
    note f = keep[OF sv]
    have "primary_ok person prim (upsert tbl0 S)"
    proof (rule primary_ok_upsert[OF ok0], intro ballI impI)
      fix r assume pS: "prim S" and r: "r \<in> set tbl0" and q: "person r = person S"
      from pS f have "prim self" by simp
      moreover from q f have "person r = person self" by simp
      ultimately show "\<not> prim r" using r c by blast
    qed
    then show ?thesis by (simp add: t2)
  qed
  then show ?thesis by (simp add: run tbl0_def[symmetric])
qed

lemma table_inv_primary_save:
  assumes ok: "table_inv conflict tbl"
    and nep: "ignores_nepali conflict" and sym: "\<And>a b. conflict a b = conflict b a"
    and clr: "\<And>r. pk (clr r) = pk r" "\<And>a b. conflict (clr a) b = conflict a b"
  shows "table_inv conflict
           (snd (AuditableModel_save L conflict now u None
                   (if c then queryset_update sel clr tbl else tbl) self))"
proof -
  have "\<And>a b. conflict a (clr b) = conflict a b"
    using sym clr(2) by metis
  with ok clr have "table_inv conflict (if c then queryset_update sel clr tbl else tbl)"
    by (simp add: table_inv_update)
  then show ?thesis by (rule table_inv_AuditableModel_save[OF _ nep sym])
qed

lemma db_inv_BankAccount_save: "db_inv d \<Longrightarrow> db_inv (snd (BankAccount_save L now u d self))"
proof -
  assume i: "db_inv d"
  let ?t = "snd (AuditableModel_save L BankAccount_conflict now u None
             (if BankAccount.is_primary self
              then queryset_update
                     (\<lambda>r. BankAccount.person_id r = BankAccount.person_id self \<and> BankAccount.is_primary r)
                     (\<lambda>r. r\<lparr>BankAccount.is_primary := False\<rparr>) (bank_accounts d)
              else bank_accounts d) self)"
  have e: "snd (BankAccount_save L now u d self) = d\<lparr>bank_accounts := ?t\<rparr>"
    by (subst BankAccount_save_unfold) simp
  from i have a: "table_inv BankAccount_conflict (bank_accounts d)"
    and b: "primary_ok BankAccount.person_id BankAccount.is_primary (bank_accounts d)"
    by (simp_all add: db_inv_def)
  from a have a': "table_inv BankAccount_conflict ?t"
    by (rule table_inv_primary_save[OF _ nepali_BankAccount_conflict sym_BankAccount_conflict])
       (simp_all add: BankAccount_conflict_def)
  from b have b': "primary_ok BankAccount.person_id BankAccount.is_primary ?t"
    by (rule primary_ok_AuditableModel_save[OF _ nepali_BankAccount_conflict _ BankAccount_saved_as]) simp
  from i a' b' show ?thesis unfolding e by (simp add: db_inv_def)
qed

lemma db_inv_PhoneNumber_save: "db_inv d \<Longrightarrow> db_inv (snd (PhoneNumber_save L now u d self))"
proof -
  assume i: "db_inv d"
  let ?t = "snd (AuditableModel_save L PhoneNumber_conflict now u None
             (if PhoneNumber.is_primary self
              then queryset_update
                     (\<lambda>r. PhoneNumber.person_id r = PhoneNumber.person_id self \<and> PhoneNumber.is_primary r)
                     (\<lambda>r. r\<lparr>PhoneNumber.is_primary := False\<rparr>) (phone_numbers d)
              else phone_numbers d) self)"
  have e: "snd (PhoneNumber_save L now u d self) = d\<lparr>phone_numbers := ?t\<rparr>"
    by (subst PhoneNumber_save_unfold) simp
  from i have a: "table_inv PhoneNumber_conflict (phone_numbers d)"
    and b: "primary_ok PhoneNumber.person_id PhoneNumber.is_primary (phone_numbers d)"
    by (simp_all add: db_inv_def)
  from a have a': "table_inv PhoneNumber_conflict ?t"
    by (rule table_inv_primary_save[OF _ nepali_PhoneNumber_conflict sym_PhoneNumber_conflict])
       (simp_all add: PhoneNumber_conflict_def)
  from b have b': "primary_ok PhoneNumber.person_id PhoneNumber.is_primary ?t"
    by (rule primary_ok_AuditableModel_save[OF _ nepali_PhoneNumber_conflict _ PhoneNumber_saved_as]) simp
  from i a' b' show ?thesis unfolding e by (simp add: db_inv_def)
qed

lemma db_inv_EmailAddress_save: "db_inv d \<Longrightarrow> db_inv (snd (EmailAddress_save L now u d self))"
proof -
  assume i: "db_inv d"
  let ?t = "snd (AuditableModel_save L EmailAddress_conflict now u None
             (if EmailAddress.is_primary self
              then queryset_update
                     (\<lambda>r. EmailAddress.person_id r = EmailAddress.person_id self \<and> EmailAddress.is_primary r)
                     (\<lambda>r. r\<lparr>EmailAddress.is_primary := False\<rparr>) (emails d)
              else emails d) self)"
  have e: "snd (EmailAddress_save L now u d self) = d\<lparr>emails := ?t\<rparr>"
    by (subst EmailAddress_save_unfold) simp
  from i have a: "table_inv EmailAddress_conflict (emails d)"
    and b: "primary_ok EmailAddress.person_id EmailAddress.is_primary (emails d)"
    by (simp_all add: db_inv_def)
  from a have a': "table_inv EmailAddress_conflict ?t"
    by (rule table_inv_primary_save[OF _ nepali_EmailAddress_conflict sym_EmailAddress_conflict])
       (simp_all add: EmailAddress_conflict_def)
  from b have b': "primary_ok EmailAddress.person_id EmailAddress.is_primary ?t"
    by (rule primary_ok_AuditableModel_save[OF _ nepali_EmailAddress_conflict _ EmailAddress_saved_as]) simp
  from i a' b' show ?thesis unfolding e by (simp add: db_inv_def)
qed

lemma table_inv_Model_save_update_fields:
  assumes ok: "table_inv conflict tbl" and pk: "\<And>s r. pk (cp s r) = pk r"
    and c1: "\<And>s a b. conflict (cp s a) b = conflict a b"
    and c2: "\<And>s a b. conflict a (cp s b) = conflict a b"
  shows "table_inv conflict (snd (Model_save conflict now u (Some cp) tbl self))"
proof (cases "pk self")
  case None
  then show ?thesis by (simp add: Model_save_def ok)
next
  case (Some k)
  have m: "table_inv conflict (map (\<lambda>r. if pk r = Some k then cp self r else r) tbl)"
    by (rule table_inv_map[OF ok]) (simp_all add: pk c1 c2)
  from Some show ?thesis by (simp add: Model_save_def ok m)
qed

lemma table_inv_AuditableModel_save_update_fields:
  assumes ok: "table_inv conflict tbl" and pk: "\<And>s r. pk (cp s r) = pk r"
    and c1: "\<And>s a b. conflict (cp s a) b = conflict a b"
    and c2: "\<And>s a b. conflict a (cp s b) = conflict a b"
    and nep: "ignores_nepali conflict" and symc: "\<And>a b. conflict a b = conflict b a"
  shows "table_inv conflict (snd (AuditableModel_save L conflict now u (Some cp) tbl self))"
proof -
  have n1: "conflict (a\<lparr>created_at_nepali := cn, updated_at_nepali := un\<rparr>) b = conflict a b"
    for a b cn un
    using nep by (simp add: ignores_nepali_def)
  have n2: "conflict a (b\<lparr>created_at_nepali := cn, updated_at_nepali := un\<rparr>) = conflict a b"
    for a b cn un
  proof -
    have "conflict a (b\<lparr>created_at_nepali := cn, updated_at_nepali := un\<rparr>)
            = conflict (b\<lparr>created_at_nepali := cn, updated_at_nepali := un\<rparr>) a"
      by (rule symc)
    also have "\<dots> = conflict b a" by (rule n1)
    also have "\<dots> = conflict a b" by (rule symc)
    finally show ?thesis .
  qed
  have n3: "conflict (a\<lparr>updated_at_nepali := un\<rparr>) b = conflict a b" for a b un
    using n1[where a = a and cn = "created_at_nepali a" and un = un and b = b] by simp
  have n4: "conflict a (b\<lparr>updated_at_nepali := un\<rparr>) = conflict a b" for a b un
    using n2[where b = b and cn = "created_at_nepali b" and un = un and a = a] by simp
  obtain r1 t1 where first: "Model_save conflict now u (Some cp) tbl self = (r1, t1)"
    by (cases "Model_save conflict now u (Some cp) tbl self")
  have "table_inv conflict (snd (Model_save conflict now u (Some cp) tbl self))"
    by (rule table_inv_Model_save_update_fields[where conflict = conflict and cp = cp,
          OF ok pk c1 c2])
  then have ok1: "table_inv conflict t1" unfolding first by simp
  show ?thesis
  proof (cases r1)
    case (Inl e)
    have "AuditableModel_save L conflict now u (Some cp) tbl self = (Inl e, t1)"
      unfolding AuditableModel_save_def Let_def first Inl by simp
    with ok1 show ?thesis by simp
  next
    case (Inr self1)
    have a: "table_inv conflict
        (snd (Model_save conflict now u (Some created_at_nepali_updated_at_nepali) t1 X))" for X
      by (rule table_inv_Model_save_update_fields[where conflict = conflict
            and cp = created_at_nepali_updated_at_nepali, OF ok1])
         (simp_all add: created_at_nepali_updated_at_nepali_def n1 n2)
    have b: "table_inv conflict
        (snd (Model_save conflict now u (Some only_updated_at_nepali) t1 X))" for X
      by (rule table_inv_Model_save_update_fields[where conflict = conflict
            and cp = only_updated_at_nepali, OF ok1])
         (simp_all add: only_updated_at_nepali_def n3 n4)
    show ?thesis
    proof (cases "pk self = None")
      case True
      have "AuditableModel_save L conflict now u (Some cp) tbl self
          = Model_save conflict now u (Some created_at_nepali_updated_at_nepali) t1
              (self1\<lparr>created_at_nepali := gregorian_to_nepali_string L (created_at self1),
                      updated_at_nepali := gregorian_to_nepali_string L (updated_at self1)\<rparr>)"
        unfolding AuditableModel_save_def Let_def first Inr by (simp add: True)
      then show ?thesis by (simp only: a)
    next
      case False
      have "AuditableModel_save L conflict now u (Some cp) tbl self
          = Model_save conflict now u (Some only_updated_at_nepali) t1
              (self1\<lparr>updated_at_nepali := gregorian_to_nepali_string L (updated_at self1)\<rparr>)"
        unfolding AuditableModel_save_def Let_def first Inr by (simp add: False)
      then show ?thesis by (simp only: b)
    qed
  qed
qed

lemma Person_save_snd:
  "\<exists>self1. snd (Person_save slugify L now u uf d self)
     = d\<lparr>persons := snd (AuditableModel_save L Person_conflict now u uf (persons d) self1)\<rparr>"
  unfolding Person_save_def Let_def by (auto simp: case_prod_beta)

lemma db_inv_Person_save:
  "db_inv d \<Longrightarrow> db_inv (snd (Person_save slugify L now u None d self))"
proof -
  assume i: "db_inv d"
  obtain self1 where e: "snd (Person_save slugify L now u None d self)
     = d\<lparr>persons := snd (AuditableModel_save L Person_conflict now u None (persons d) self1)\<rparr>"
    using Person_save_snd by blast
  from i have "table_inv Person_conflict (persons d)" by (simp add: db_inv_def)
  then have "table_inv Person_conflict
      (snd (AuditableModel_save L Person_conflict now u None (persons d) self1))"
    by (rule table_inv_AuditableModel_save[OF _ nepali_Person_conflict sym_Person_conflict])
  with i show ?thesis unfolding e by (simp add: db_inv_def)
qed

lemma db_inv_Person_save_is_active_deleted_at:
  "db_inv d \<Longrightarrow> db_inv (snd (Person_save slugify L now u (Some is_active_deleted_at) d self))"
proof -
  assume i: "db_inv d"
  obtain self1 where e: "snd (Person_save slugify L now u (Some is_active_deleted_at) d self)
     = d\<lparr>persons := snd (AuditableModel_save L Person_conflict now u
                              (Some is_active_deleted_at) (persons d) self1)\<rparr>"
    using Person_save_snd by blast
  from i have "table_inv Person_conflict (persons d)" by (simp add: db_inv_def)
  then have "table_inv Person_conflict
      (snd (AuditableModel_save L Person_conflict now u (Some is_active_deleted_at)
              (persons d) self1))"
    by (rule table_inv_AuditableModel_save_update_fields[where conflict = Person_conflict
          and cp = is_active_deleted_at, OF _ _ _ _ nepali_Person_conflict sym_Person_conflict])
       (simp_all add: is_active_deleted_at_def Person_conflict_def)
  with i show ?thesis unfolding e by (simp add: db_inv_def)
qed

lemma reachable_db_inv: "reachable slugify L d \<Longrightarrow> db_inv d"
proof (induction rule: reachable.induct)
  case initial
  show ?case by (rule db_inv_empty)
next
  case (province d now u p)
  then show ?case by (simp add: db_inv_Province_save)
next
  case (district d now u dt)
  then show ?case by (simp add: db_inv_District_save)
next
  case (municipality d now u m)
  then show ?case by (simp add: db_inv_Municipality_save)
next
  case (ward d now u w)
  then show ?case by (simp add: db_inv_Ward_save)
next
  case (post d now u po)
  then show ?case by (simp add: db_inv_Post_save)
next
  case (bank d now u b)
  then show ?case by (simp add: db_inv_Bank_save)
next
  case (bank_branch d now u br)
  then show ?case by (simp add: db_inv_BankBranch_save)
next
  case (bank_account d now u a)
  then show ?case by (simp add: db_inv_BankAccount_save)
next
  case (specific_work d now u sw)
  then show ?case by (simp add: db_inv_SpecificWork_save)
next
  case (person d now u pe)
  then show ?case by (simp add: db_inv_Person_save)
next
  case (soft_delete d now u pe)
  then show ?case by (simp add: Person_soft_delete_def db_inv_Person_save_is_active_deleted_at)
next
  case (restore d now u pe)
  then show ?case by (simp add: Person_restore_def db_inv_Person_save_is_active_deleted_at)
next
  case (phone_number d now u ph)
  then show ?case by (simp add: db_inv_PhoneNumber_save)
next
  case (email_address d now u em)
  then show ?case by (simp add: db_inv_EmailAddress_save)
qed

subsection \<open>Primary rows and slugs in the reachable states\<close>





text \<open>
  C2. In every state that the save operations reach, no two districts of one province,
  no two municipalities of one district, no two wards of one municipality and no two
  branches of one bank have the same slug, and no two provinces, posts, banks, specific
  works or persons have the same slug.
\<close>

theorem slugs_unique_in_scope:
  "reachable slugify L d \<Longrightarrow>
     distinct (map (\<lambda>r. (District.province_id r, District.slug r)) (districts d))
     \<and> distinct (map (\<lambda>r. (Municipality.district_id r, Municipality.slug r)) (municipalities d))
     \<and> distinct (map (\<lambda>r. (Ward.municipality_id r, Ward.slug r)) (wards d))
     \<and> distinct (map (\<lambda>r. (BankBranch.bank_id r, BankBranch.slug r)) (bank_branches d))
     \<and> distinct (map Province.slug (provinces d))
     \<and> distinct (map Post.slug (posts d))
     \<and> distinct (map Bank.slug (banks d))
     \<and> distinct (map SpecificWork.slug (specific_works d))
     \<and> distinct (map Person.slug (persons d))"
proof -
  assume "reachable slugify L d"
  then have i: "db_inv d" by (rule reachable_db_inv)
  from i have "table_inv District_conflict (districts d)" by (simp add: db_inv_def)
  then have 1: "distinct (map (\<lambda>r. (District.province_id r, District.slug r)) (districts d))"
    by (rule table_inv_distinct_key) (simp add: District_conflict_def)
  from i have "table_inv Municipality_conflict (municipalities d)" by (simp add: db_inv_def)
  then have 2: "distinct (map (\<lambda>r. (Municipality.district_id r, Municipality.slug r))
                          (municipalities d))"
    by (rule table_inv_distinct_key) (simp add: Municipality_conflict_def)
  from i have "table_inv Ward_conflict (wards d)" by (simp add: db_inv_def)
  then have 3: "distinct (map (\<lambda>r. (Ward.municipality_id r, Ward.slug r)) (wards d))"
    by (rule table_inv_distinct_key) (simp add: Ward_conflict_def)
  from i have "table_inv BankBranch_conflict (bank_branches d)" by (simp add: db_inv_def)
  then have 4: "distinct (map (\<lambda>r. (BankBranch.bank_id r, BankBranch.slug r)) (bank_branches d))"
    by (rule table_inv_distinct_key) (simp add: BankBranch_conflict_def)
  from i have "table_inv Province_conflict (provinces d)" by (simp add: db_inv_def)
  then have 5: "distinct (map Province.slug (provinces d))"
    by (rule table_inv_distinct_key) (simp add: Province_conflict_def)
  from i have "table_inv Post_conflict (posts d)" by (simp add: db_inv_def)
  then have 6: "distinct (map Post.slug (posts d))"
    by (rule table_inv_distinct_key) (simp add: Post_conflict_def)
  from i have "table_inv Bank_conflict (banks d)" by (simp add: db_inv_def)
  then have 7: "distinct (map Bank.slug (banks d))"
    by (rule table_inv_distinct_key) (simp add: Bank_conflict_def)
  from i have "table_inv SpecificWork_conflict (specific_works d)" by (simp add: db_inv_def)
  then have 8: "distinct (map SpecificWork.slug (specific_works d))"
    by (rule table_inv_distinct_key) (simp add: SpecificWork_conflict_def)
  from i have "table_inv Person_conflict (persons d)" by (simp add: db_inv_def)
  then have 9: "distinct (map Person.slug (persons d))"
    by (rule table_inv_distinct_key) (simp add: Person_conflict_def)
  from 1 2 3 4 5 6 7 8 9 show ?thesis by simp
qed

theorem slugs_unique_in_scope_witness:
  "reachable slugify_ascii utc_without_nepali
     (snd (District_save slugify_ascii utc_without_nepali
        \<lparr>year = 2024, month = 5, day = 17, hour = 9, minute = 31, second = 0, utcoffset = Some 0\<rparr>
        99
        (snd (District_save slugify_ascii utc_without_nepali
          \<lparr>year = 2024, month = 5, day = 17, hour = 9, minute = 30, second = 0, utcoffset = Some 0\<rparr>
          99 empty_db
          \<lparr>pk = Some 1, created_at = None, updated_at = None, created_at_nepali = '''',
            updated_at_nepali = '''', created_by_id = None,
            District.province_id = 3, name = ''Kathmandu'', slug = ''''\<rparr>))
        \<lparr>pk = Some 2, created_at = None, updated_at = None, created_at_nepali = '''',
          updated_at_nepali = '''', created_by_id = None,
          District.province_id = 3, name = ''KATHMANDU'', slug = ''''\<rparr>))
   \<and> distinct (map (\<lambda>r. (District.province_id r, District.slug r))
       (districts (snd (District_save slugify_ascii utc_without_nepali
        \<lparr>year = 2024, month = 5, day = 17, hour = 9, minute = 31, second = 0, utcoffset = Some 0\<rparr>
        99
        (snd (District_save slugify_ascii utc_without_nepali
          \<lparr>year = 2024, month = 5, day = 17, hour = 9, minute = 30, second = 0, utcoffset = Some 0\<rparr>
          99 empty_db
          \<lparr>pk = Some 1, created_at = None, updated_at = None, created_at_nepali = '''',
            updated_at_nepali = '''', created_by_id = None,
            District.province_id = 3, name = ''Kathmandu'', slug = ''''\<rparr>))
        \<lparr>pk = Some 2, created_at = None, updated_at = None, created_at_nepali = '''',
          updated_at_nepali = '''', created_by_id = None,
          District.province_id = 3, name = ''KATHMANDU'', slug = ''''\<rparr>))))
   \<and> map District.slug
       (districts (snd (District_save slugify_ascii utc_without_nepali
        \<lparr>year = 2024, month = 5, day = 17, hour = 9, minute = 31, second = 0, utcoffset = Some 0\<rparr>
        99
        (snd (District_save slugify_ascii utc_without_nepali
          \<lparr>year = 2024, month = 5, day = 17, hour = 9, minute = 30, second = 0, utcoffset = Some 0\<rparr>
          99 empty_db
          \<lparr>pk = Some 1, created_at = None, updated_at = None, created_at_nepali = '''',
            updated_at_nepali = '''', created_by_id = None,
            District.province_id = 3, name = ''Kathmandu'', slug = ''''\<rparr>))
        \<lparr>pk = Some 2, created_at = None, updated_at = None, created_at_nepali = '''',
          updated_at_nepali = '''', created_by_id = None,
          District.province_id = 3, name = ''KATHMANDU'', slug = ''''\<rparr>)))
       = [''kathmandu'', ''kathmandu-1'']"
proof -
  let ?d1 = "snd (District_save slugify_ascii utc_without_nepali
          \<lparr>year = 2024, month = 5, day = 17, hour = 9, minute = 30, second = 0, utcoffset = Some 0\<rparr>
          99 empty_db
          \<lparr>pk = Some 1, created_at = None, updated_at = None, created_at_nepali = '''',
            updated_at_nepali = '''', created_by_id = None,
            District.province_id = 3, name = ''Kathmandu'', slug = ''''\<rparr>)"
  let ?d2 = "snd (District_save slugify_ascii utc_without_nepali
        \<lparr>year = 2024, month = 5, day = 17, hour = 9, minute = 31, second = 0, utcoffset = Some 0\<rparr>
        99 ?d1
        \<lparr>pk = Some 2, created_at = None, updated_at = None, created_at_nepali = '''',
          updated_at_nepali = '''', created_by_id = None,
          District.province_id = 3, name = ''KATHMANDU'', slug = ''''\<rparr>)"
  have r: "reachable slugify_ascii utc_without_nepali ?d2"
    by (rule reachable.district[OF reachable.district[OF reachable.initial]])
  have m: "map District.slug (districts ?d2) = [''kathmandu'', ''kathmandu-1'']"
    by code_simp
  from slugs_unique_in_scope[OF r]
  have u: "distinct (map (\<lambda>r. (District.province_id r, District.slug r)) (districts ?d2))"
    by (rule conjunct1)
  from r u m show ?thesis by (intro conjI)
qed

end
